theory Spec2Isabelle
  imports Main "HOL-Library.AList" "HOL-Library.Char_ord" "HOL-Library.List_Lexorder"
begin

section \<open>addfile.py: classification, relocation and the recap.csv ledger\<close>

text \<open>
  The script organises one file: it looks up the MIME type, classifies it, moves the file
  into the sub-folder of its category and appends a row to \<^verbatim>\<open>recap.csv\<close>.
  Python strings are modelled as \<^typ>\<open>string\<close>, the value \<^verbatim>\<open>None\<close> as
  \<^term>\<open>None\<close>, exceptions as the left summand of a sum type.
\<close>

subsection \<open>String helpers of Python\<close>

text \<open>\<^verbatim>\<open>s.startswith(p)\<close>.\<close>

definition startswith :: "string \<Rightarrow> string \<Rightarrow> bool" where
  "startswith s p = (take (length p) s = p)"

text \<open>\<^verbatim>\<open>s.split('/')\<close>: never empty, the separators removed.\<close>

fun split_sep :: "string \<Rightarrow> string list" where
  "split_sep [] = [[]]"
| "split_sep (c # s) =
     (if c = CHR ''/'' then [] # split_sep s
      else (case split_sep s of [] \<Rightarrow> [[c]] | x # xs \<Rightarrow> (c # x) # xs))"

subsection \<open>classifica_file\<close>

text \<open>
  \<^verbatim>\<open>
  def classifica_file(mime_type):
      if mime_type is None: return None
      if mime_type.startswith('audio'): return 'audio'
      elif mime_type.startswith('image'): return 'immagini'
      elif mime_type.startswith('application') or mime_type.startswith('text'):
          return 'documenti'
      else: return None
  \<close>
\<close>

definition classifica_file :: "string option \<Rightarrow> string option" where
  "classifica_file mime_type =
     (case mime_type of
        None \<Rightarrow> None
      | Some m \<Rightarrow>
          if startswith m ''audio'' then Some ''audio''
          else if startswith m ''image'' then Some ''immagini''
          else if startswith m ''application'' \<or> startswith m ''text'' then Some ''documenti''
          else None)"

text \<open>
  The top-level token of a media type, as \<^verbatim>\<open>main\<close> computes it for its listing:
  \<^verbatim>\<open>mime_info[0].split('/')[0]\<close>.
\<close>

definition tipo_principale :: "string \<Rightarrow> string" where
  "tipo_principale m = hd (split_sep m)"

subsection \<open>Exceptions\<close>

text \<open>
  The script raises nothing itself: every exception comes from a library call and is caught
  in \<^verbatim>\<open>main\<close> by \<^verbatim>\<open>except Exception\<close>, unwrapped. The constructors name
  the \<^verbatim>\<open>OSError\<close> cases by their \<^verbatim>\<open>errno\<close> (\<^verbatim>\<open>FileNotFoundError\<close>,
  \<^verbatim>\<open>NotADirectoryError\<close>, \<^verbatim>\<open>IsADirectoryError\<close>, \<^verbatim>\<open>FileExistsError\<close>,
  \<^verbatim>\<open>EINVAL\<close>), \<^verbatim>\<open>shutil.Error\<close> with its subclass
  \<^verbatim>\<open>shutil.SameFileError\<close>, \<^verbatim>\<open>ValueError\<close> and its subclass
  \<^verbatim>\<open>UnicodeEncodeError\<close>.
\<close>

datatype errore =
  ENOENT | ENOTDIR | EISDIR | EEXIST | EINVAL | ShutilError | SameFileError | ValueError
  | UnicodeEncodeError

subsection \<open>The csv module: writing\<close>

abbreviation DQ :: char where "DQ \<equiv> CHR 0x22"
abbreviation CR :: char where "CR \<equiv> CHR 0x0D"
abbreviation LF :: char where "LF \<equiv> CHR 0x0A"

text \<open>\<^verbatim>\<open>str(n)\<close> for an integer: decimal digits, a minus sign when negative.\<close>

fun cifre :: "nat \<Rightarrow> string" where
  "cifre n = (if n < 10 then [''0123456789'' ! n]
              else cifre (n div 10) @ [''0123456789'' ! (n mod 10)])"

definition str_int :: "int \<Rightarrow> string" where
  "str_int i = (if i < 0 then CHR ''-'' # cifre (nat (- i)) else cifre (nat i))"

text \<open>
  The values \<^verbatim>\<open>main\<close> stores in \<^verbatim>\<open>file_info\<close>: strings and one integer. The
  writer passes a string through and applies \<^verbatim>\<open>str\<close> to anything else.
\<close>

datatype valore = VStr string | VInt int

fun str_valore :: "valore \<Rightarrow> string" where
  "str_valore (VStr s) = s"
| "str_valore (VInt i) = str_int i"

text \<open>
  \<^verbatim>\<open>csv.DictWriter(csvfile, fieldnames=intestazioni)\<close> uses the \<^verbatim>\<open>excel\<close>
  dialect: delimiter comma, quote character \<^verbatim>\<open>"\<close>, \<^verbatim>\<open>QUOTE_MINIMAL\<close>, doubled
  quotes, line terminator CR LF. A field is quoted when it contains the delimiter, the quote
  character or a character of the line terminator; a row that would be empty although it has
  a field (one empty field) is written as \<^verbatim>\<open>""\<close>. The file is opened with
  \<^verbatim>\<open>newline=''\<close>, so the text reaches the file as the writer produced it.
\<close>

definition speciale :: "char \<Rightarrow> bool" where
  "speciale c = (c = CHR '','' \<or> c = DQ \<or> c = CR \<or> c = LF)"

definition csv_campo :: "string \<Rightarrow> string" where
  "csv_campo s =
     (if \<exists>c \<in> set s. speciale c
      then DQ # concat (map (\<lambda>c. if c = DQ then [DQ, DQ] else [c]) s) @ [DQ]
      else s)"

fun csv_unisci :: "string list \<Rightarrow> string" where
  "csv_unisci [] = []"
| "csv_unisci [x] = x"
| "csv_unisci (x # y # ys) = x @ CHR '','' # csv_unisci (y # ys)"

definition csv_writerow :: "string list \<Rightarrow> string" where
  "csv_writerow campi =
     (let r = csv_unisci (map csv_campo campi)
      in (if r = [] \<and> campi \<noteq> [] then [DQ, DQ] else r) @ [CR, LF])"

text \<open>
  \<^verbatim>\<open>DictWriter.writerow(rowdict)\<close>: a key outside \<^verbatim>\<open>fieldnames\<close> raises
  \<^verbatim>\<open>ValueError\<close> (\<^verbatim>\<open>extrasaction='raise'\<close>); the fields are written in the order
  of \<^verbatim>\<open>fieldnames\<close>, a missing key as the empty string (\<^verbatim>\<open>restval=''\<close>). The
  dictionary is an association list. \<^verbatim>\<open>writeheader\<close> writes the field names as a row.
\<close>

definition campo_di :: "(string \<times> valore) list \<Rightarrow> string \<Rightarrow> string" where
  "campo_di rowdict k = (case map_of rowdict k of None \<Rightarrow> [] | Some v \<Rightarrow> str_valore v)"

definition riga_di :: "string list \<Rightarrow> (string \<times> valore) list \<Rightarrow> string list" where
  "riga_di fieldnames rowdict = map (campo_di rowdict) fieldnames"

definition dict_writerow :: "string list \<Rightarrow> (string \<times> valore) list \<Rightarrow> errore + string" where
  "dict_writerow fieldnames rowdict =
     (if \<exists>k \<in> set (map fst rowdict). k \<notin> set fieldnames then Inl ValueError
      else Inr (csv_writerow (riga_di fieldnames rowdict)))"

definition dict_writeheader :: "string list \<Rightarrow> string" where
  "dict_writeheader fieldnames = csv_writerow fieldnames"

subsection \<open>The csv module: reading\<close>

text \<open>
  The reader of the same dialect, the one a ledger is read back with. It is the state machine
  of \<^verbatim>\<open>csv.reader\<close> run over the characters of the text: a record ends at CR, LF or
  CR LF outside quotes, inside quotes every character but the quote is data, a doubled quote
  is one quote. \<^const>\<open>None\<close> in the last component of a step means that no record is
  complete yet.
\<close>

datatype stato = StartRecord | StartField | InField | InQuotedField | QuoteInQuotedField | EatCRNL

definition inizio_campo ::
  "string list \<Rightarrow> char \<Rightarrow> stato \<times> string \<times> string list \<times> string list option" where
  "inizio_campo campi c =
     (if c = CR then (EatCRNL, [], [], Some (campi @ [[]]))
      else if c = LF then (StartRecord, [], [], Some (campi @ [[]]))
      else if c = DQ then (InQuotedField, [], campi, None)
      else if c = CHR '','' then (StartField, [], campi @ [[]], None)
      else (InField, [c], campi, None))"

definition inizio_riga :: "char \<Rightarrow> stato \<times> string \<times> string list \<times> string list option" where
  "inizio_riga c =
     (if c = CR then (EatCRNL, [], [], Some [])
      else if c = LF then (StartRecord, [], [], Some [])
      else inizio_campo [] c)"

fun passo ::
  "stato \<Rightarrow> string \<Rightarrow> string list \<Rightarrow> char \<Rightarrow> stato \<times> string \<times> string list \<times> string list option" where
  "passo StartRecord campo campi c = inizio_riga c"
| "passo EatCRNL campo campi c = (if c = LF then (StartRecord, [], [], None) else inizio_riga c)"
| "passo StartField campo campi c = inizio_campo campi c"
| "passo InField campo campi c =
     (if c = CR then (EatCRNL, [], [], Some (campi @ [campo]))
      else if c = LF then (StartRecord, [], [], Some (campi @ [campo]))
      else if c = CHR '','' then (StartField, [], campi @ [campo], None)
      else (InField, campo @ [c], campi, None))"
| "passo InQuotedField campo campi c =
     (if c = DQ then (QuoteInQuotedField, campo, campi, None)
      else (InQuotedField, campo @ [c], campi, None))"
| "passo QuoteInQuotedField campo campi c =
     (if c = DQ then (InQuotedField, campo @ [DQ], campi, None)
      else if c = CHR '','' then (StartField, [], campi @ [campo], None)
      else if c = CR then (EatCRNL, [], [], Some (campi @ [campo]))
      else if c = LF then (StartRecord, [], [], Some (campi @ [campo]))
      else (InField, campo @ [c], campi, None))"

fun leggi :: "stato \<Rightarrow> string \<Rightarrow> string list \<Rightarrow> string \<Rightarrow> string list list" where
  "leggi st campo campi [] =
     (if st = StartRecord \<or> st = EatCRNL then [] else [campi @ [campo]])"
| "leggi st campo campi (c # cs) =
     (case passo st campo campi c of
        (st', campo', campi', None) \<Rightarrow> leggi st' campo' campi' cs
      | (st', campo', campi', Some r) \<Rightarrow> r # leggi st' campo' campi' cs)"

definition csv_reader :: "string \<Rightarrow> string list list" where
  "csv_reader testo = leggi StartRecord [] [] testo"

subsection \<open>The file system\<close>

text \<open>
  All state of the script is the file system. A tree is an association list from the
  components of a canonical path to a node; a regular file carries its content, the root
  \<open>[]\<close> is a directory. The model is a POSIX tree on one device, without symbolic links
  and permissions, with the working directory at the root; a system call fails exactly for
  the reasons the shape of the tree gives (a missing entry, a regular file where a directory
  is needed, a directory where a file is needed). A string is the sequence of bytes the
  system has for it: Python decodes file names with \<^verbatim>\<open>surrogateescape\<close>, so every
  byte string is a name, the characters the script looks for (the separator, the delimiter,
  the quote, line breaks) are single bytes, and a string can be encoded as UTF-8 exactly
  when its bytes are well-formed UTF-8.
\<close>

datatype node = File string | Dir

type_synonym fs = "(string list \<times> node) list"

definition nodo :: "fs \<Rightarrow> string list \<Rightarrow> node option" where
  "nodo fs p = (if p = [] then Some Dir else map_of fs p)"

definition metti :: "string list \<Rightarrow> node \<Rightarrow> fs \<Rightarrow> fs" where
  "metti p n fs = AList.update p n fs"

definition togli :: "string list \<Rightarrow> fs \<Rightarrow> fs" where
  "togli p fs = AList.delete p fs"

text \<open>In a well-formed tree every entry lies in a directory.\<close>

definition ben_formato :: "fs \<Rightarrow> bool" where
  "ben_formato fs = list_all (\<lambda>(k, n). k = [] \<or> nodo fs (butlast k) = Some Dir) fs"

text \<open>
  Path resolution walks the components of the string: every component is looked up in a
  directory, the empty component and \<^verbatim>\<open>.\<close> stay, \<^verbatim>\<open>..\<close> goes up. The entry that
  the last component names may be missing. The empty path names nothing.
\<close>

fun cammina :: "fs \<Rightarrow> string list \<Rightarrow> string list \<Rightarrow> errore + string list" where
  "cammina fs cur [] = Inr cur"
| "cammina fs cur (c # cs) =
     (case nodo fs cur of
        None \<Rightarrow> Inl ENOENT
      | Some (File _) \<Rightarrow> Inl ENOTDIR
      | Some Dir \<Rightarrow>
          if c = [] \<or> c = ''.'' then cammina fs cur cs
          else if c = ''..'' then cammina fs (butlast cur) cs
          else cammina fs (cur @ [c]) cs)"

definition risolvi :: "fs \<Rightarrow> string \<Rightarrow> errore + string list" where
  "risolvi fs p = (if p = [] then Inl ENOENT else cammina fs [] (split_sep p))"

definition stat :: "fs \<Rightarrow> string \<Rightarrow> errore + string list \<times> node" where
  "stat fs p =
     (case risolvi fs p of
        Inl e \<Rightarrow> Inl e
      | Inr q \<Rightarrow> (case nodo fs q of None \<Rightarrow> Inl ENOENT | Some n \<Rightarrow> Inr (q, n)))"

definition os_path_exists :: "fs \<Rightarrow> string \<Rightarrow> bool" where
  "os_path_exists fs p = (case stat fs p of Inl _ \<Rightarrow> False | Inr _ \<Rightarrow> True)"

definition os_path_isdir :: "fs \<Rightarrow> string \<Rightarrow> bool" where
  "os_path_isdir fs p = (case stat fs p of Inr (_, Dir) \<Rightarrow> True | _ \<Rightarrow> False)"

definition os_path_isfile :: "fs \<Rightarrow> string \<Rightarrow> bool" where
  "os_path_isfile fs p = (case stat fs p of Inr (_, File _) \<Rightarrow> True | _ \<Rightarrow> False)"

text \<open>
  \<^verbatim>\<open>os.path.getsize\<close>: the length of a regular file; for a directory the size of the
  directory entry, which depends on the file system and is fixed here.
\<close>

definition os_path_getsize :: "fs \<Rightarrow> string \<Rightarrow> errore + int" where
  "os_path_getsize fs p =
     (case stat fs p of
        Inl e \<Rightarrow> Inl e
      | Inr (_, File c) \<Rightarrow> Inr (int (length c))
      | Inr (_, Dir) \<Rightarrow> Inr 4096)"

text \<open>Reading a whole file, to observe a ledger.\<close>

definition leggi_file :: "fs \<Rightarrow> string \<Rightarrow> string option" where
  "leggi_file fs p = (case stat fs p of Inr (_, File c) \<Rightarrow> Some c | _ \<Rightarrow> None)"

text \<open>\<^verbatim>\<open>os.path.join(a, b)\<close> and \<^verbatim>\<open>os.path.basename(p)\<close> of \<^verbatim>\<open>posixpath\<close>.\<close>

definition os_path_join :: "string \<Rightarrow> string \<Rightarrow> string" where
  "os_path_join a b =
     (if startswith b ''/'' then b
      else if a = [] \<or> last a = CHR ''/'' then a @ b
      else a @ ''/'' @ b)"

definition os_path_basename :: "string \<Rightarrow> string" where
  "os_path_basename p = rev (takeWhile (\<lambda>c. c \<noteq> CHR ''/'') (rev p))"

text \<open>
  \<^verbatim>\<open>os.listdir\<close>: the names of the entries of a directory.
\<close>

definition os_listdir :: "fs \<Rightarrow> string \<Rightarrow> errore + string list" where
  "os_listdir fs p =
     (case stat fs p of
        Inl e \<Rightarrow> Inl e
      | Inr (_, File _) \<Rightarrow> Inl ENOTDIR
      | Inr (q, Dir) \<Rightarrow>
          Inr (remdups (map (last \<circ> fst) (filter (\<lambda>(k, n). k \<noteq> [] \<and> butlast k = q) fs))))"

text \<open>
  \<^verbatim>\<open>open(p, mode='a')\<close>: the file is created empty when it is missing and its directory
  exists; a directory cannot be opened. \<^verbatim>\<open>write\<close> appends to the file opened.
\<close>

definition apri_append :: "fs \<Rightarrow> string \<Rightarrow> errore + string list \<times> fs" where
  "apri_append fs p =
     (case risolvi fs p of
        Inl e \<Rightarrow> Inl e
      | Inr q \<Rightarrow>
          (case nodo fs q of
             Some Dir \<Rightarrow> Inl EISDIR
           | Some (File _) \<Rightarrow> Inr (q, fs)
           | None \<Rightarrow>
               if nodo fs (butlast q) = Some Dir then Inr (q, metti q (File []) fs)
               else Inl ENOENT))"

definition scrivi_in_coda :: "fs \<Rightarrow> string list \<Rightarrow> string \<Rightarrow> fs" where
  "scrivi_in_coda fs q testo =
     (case nodo fs q of Some (File c) \<Rightarrow> metti q (File (c @ testo)) fs | _ \<Rightarrow> fs)"

text \<open>
  Well-formed UTF-8 (no overlong forms, no surrogates, nothing above U+10FFFF).
\<close>

definition continuazione :: "char \<Rightarrow> bool" where
  "continuazione c = (0x80 \<le> (of_char c :: nat) \<and> (of_char c :: nat) \<le> 0xBF)"

fun utf8_valido :: "string \<Rightarrow> bool" where
  "utf8_valido [] = True"
| "utf8_valido [c] = ((of_char c :: nat) < 0x80)"
| "utf8_valido (c # c1 # r) =
     (let b = (of_char c :: nat); b1 = (of_char c1 :: nat)
      in if b < 0x80 then utf8_valido (c1 # r)
         else if 0xC2 \<le> b \<and> b \<le> 0xDF then continuazione c1 \<and> utf8_valido r
         else if 0xE0 \<le> b \<and> b \<le> 0xEF then
           continuazione c1 \<and> (b = 0xE0 \<longrightarrow> 0xA0 \<le> b1) \<and> (b = 0xED \<longrightarrow> b1 \<le> 0x9F) \<and>
           (case r of c2 # r' \<Rightarrow> continuazione c2 \<and> utf8_valido r' | [] \<Rightarrow> False)
         else if 0xF0 \<le> b \<and> b \<le> 0xF4 then
           continuazione c1 \<and> (b = 0xF0 \<longrightarrow> 0x90 \<le> b1) \<and> (b = 0xF4 \<longrightarrow> b1 \<le> 0x8F) \<and>
           (case r of c2 # c3 # r' \<Rightarrow> continuazione c2 \<and> continuazione c3 \<and> utf8_valido r'
            | _ \<Rightarrow> False)
         else False)"

text \<open>
  \<^verbatim>\<open>write\<close> on a file opened with \<^verbatim>\<open>encoding='utf-8'\<close>: the text is encoded
  first, and a text that cannot be encoded raises \<^verbatim>\<open>UnicodeEncodeError\<close> with
  nothing of it written.
\<close>

definition file_write :: "fs \<Rightarrow> string list \<Rightarrow> string \<Rightarrow> (errore + unit) \<times> fs" where
  "file_write fs q testo =
     (if utf8_valido testo then (Inr (), scrivi_in_coda fs q testo)
      else (Inl UnicodeEncodeError, fs))"

text \<open>
  \<^verbatim>\<open>os.makedirs(name)\<close> with \<^verbatim>\<open>exist_ok=False\<close>: the missing directories along the
  path are created in order; a regular file on the way stops it, with the directories made
  so far left behind. The call fails on a path that exists, also when the path ends in
  \<^verbatim>\<open>..\<close> and so names a directory that exists after its ancestors were made.
\<close>

fun crea_cammino :: "fs \<Rightarrow> string list \<Rightarrow> string list \<Rightarrow> (errore + string list) \<times> fs" where
  "crea_cammino fs cur [] = (Inr cur, fs)"
| "crea_cammino fs cur (c # cs) =
     (if c = [] \<or> c = ''.'' then crea_cammino fs cur cs
      else if c = ''..'' then crea_cammino fs (butlast cur) cs
      else (case nodo fs (cur @ [c]) of
              None \<Rightarrow> crea_cammino (metti (cur @ [c]) Dir fs) (cur @ [c]) cs
            | Some Dir \<Rightarrow> crea_cammino fs (cur @ [c]) cs
            | Some (File _) \<Rightarrow> (Inl (if cs = [] then EEXIST else ENOTDIR), fs)))"

definition ultimo_componente :: "string \<Rightarrow> string" where
  "ultimo_componente name = last ([] # rev (dropWhile (\<lambda>c. c = []) (rev (split_sep name))))"

definition os_makedirs :: "fs \<Rightarrow> string \<Rightarrow> (errore + unit) \<times> fs" where
  "os_makedirs fs name =
     (if name = [] then (Inl ENOENT, fs)
      else if os_path_exists fs name then (Inl EEXIST, fs)
      else (case crea_cammino fs [] (split_sep name) of
              (Inl e, fs') \<Rightarrow> (Inl e, fs')
            | (Inr _, fs') \<Rightarrow>
                if ultimo_componente name = ''..'' then (Inl EEXIST, fs') else (Inr (), fs')))"

text \<open>
  \<^verbatim>\<open>os.rename(src, dst)\<close>: a regular file replaces a regular file or takes a free name in
  an existing directory; a directory moves with everything below it, onto a free name or an
  empty directory, never into itself. Nothing changes when the call fails.
\<close>

definition sotto :: "string list \<Rightarrow> string list \<Rightarrow> bool" where
  "sotto q k = (take (length q) k = q)"

definition sposta_sottoalbero :: "string list \<Rightarrow> string list \<Rightarrow> fs \<Rightarrow> fs" where
  "sposta_sottoalbero qs qd fs =
     map (\<lambda>(k, n). if sotto qs k then (qd @ drop (length qs) k, n) else (k, n))
       (filter (\<lambda>(k, n). \<not> sotto qd k) fs)"

definition os_rename :: "fs \<Rightarrow> string \<Rightarrow> string \<Rightarrow> errore + fs" where
  "os_rename fs src dst =
     (case stat fs src of
        Inl e \<Rightarrow> Inl e
      | Inr (qs, n) \<Rightarrow>
          (case risolvi fs dst of
             Inl e \<Rightarrow> Inl e
           | Inr qd \<Rightarrow>
               if qd = qs then Inr fs
               else if qs = [] \<or> qd = [] then Inl EINVAL
               else if nodo fs (butlast qd) \<noteq> Some Dir then Inl ENOENT
               else (case n of
                       File c \<Rightarrow>
                         (case nodo fs qd of
                            Some Dir \<Rightarrow> Inl EISDIR
                          | _ \<Rightarrow> Inr (metti qd (File c) (togli qs fs)))
                     | Dir \<Rightarrow>
                         (case nodo fs qd of
                            Some (File _) \<Rightarrow> Inl ENOTDIR
                          | _ \<Rightarrow>
                              if sotto qs qd then Inl EINVAL
                              else if \<exists>(k, n) \<in> set fs. sotto qd k \<and> k \<noteq> qd then Inl EEXIST
                              else Inr (sposta_sottoalbero qs qd fs)))))"

text \<open>
  \<^verbatim>\<open>os.path.isabs\<close> and \<^verbatim>\<open>os.path.normpath\<close> of \<^verbatim>\<open>posixpath\<close>, what
  ``absolute'' and ``normalized'' mean for a path string, and \<^verbatim>\<open>os.path.abspath\<close>
  with the working directory at the root. \<^verbatim>\<open>sposta_file\<close> calls none of them;
  \<^verbatim>\<open>shutil.move\<close> compares absolute paths to refuse moving a directory into
  itself.
\<close>

definition os_path_isabs :: "string \<Rightarrow> bool" where
  "os_path_isabs p = startswith p ''/''"

fun norm_componenti :: "bool \<Rightarrow> string list \<Rightarrow> string list \<Rightarrow> string list" where
  "norm_componenti iniziale nuovi [] = nuovi"
| "norm_componenti iniziale nuovi (c # cs) =
     (if c = [] \<or> c = ''.'' then norm_componenti iniziale nuovi cs
      else if c \<noteq> ''..'' \<or> (\<not> iniziale \<and> nuovi = []) \<or> (nuovi \<noteq> [] \<and> last nuovi = ''..'')
      then norm_componenti iniziale (nuovi @ [c]) cs
      else norm_componenti iniziale (butlast nuovi) cs)"

fun unisci_sep :: "string list \<Rightarrow> string" where
  "unisci_sep [] = []"
| "unisci_sep [x] = x"
| "unisci_sep (x # y # ys) = x @ CHR ''/'' # unisci_sep (y # ys)"

definition os_path_normpath :: "string \<Rightarrow> string" where
  "os_path_normpath p =
     (if p = [] then ''.''
      else (let iniziale = startswith p ''/'';
                barre = (if iniziale \<and> startswith p ''//'' \<and> \<not> startswith p ''///'' then ''//''
                         else if iniziale then ''/'' else []);
                r = barre @ unisci_sep (norm_componenti iniziale [] (split_sep p))
            in if r = [] then ''.'' else r))"

definition os_path_abspath :: "string \<Rightarrow> string" where
  "os_path_abspath p = os_path_normpath (os_path_join ''/'' p)"

text \<open>
  The pieces of \<^verbatim>\<open>shutil.move\<close>. \<^verbatim>\<open>open(dst, 'wb')\<close> creates the file or
  empties it. \<^verbatim>\<open>shutil.copy2(src, dst)\<close> copies into \<^verbatim>\<open>dst\<close> when that is a
  directory, refuses to copy a file onto itself, opens the source for reading, then the
  destination for writing, and writes the content. \<^verbatim>\<open>os.unlink\<close> removes a regular
  file. \<^verbatim>\<open>shutil.copytree(src, dst)\<close> makes \<^verbatim>\<open>dst\<close> with
  \<^verbatim>\<open>os.makedirs\<close> and copies everything below \<^verbatim>\<open>src\<close>;
  \<^verbatim>\<open>shutil.rmtree\<close> removes a directory with everything below it.
\<close>

definition apri_scrittura :: "fs \<Rightarrow> string \<Rightarrow> errore + string list \<times> fs" where
  "apri_scrittura fs p =
     (case risolvi fs p of
        Inl e \<Rightarrow> Inl e
      | Inr q \<Rightarrow>
          (case nodo fs q of
             Some Dir \<Rightarrow> Inl EISDIR
           | Some (File _) \<Rightarrow> Inr (q, metti q (File []) fs)
           | None \<Rightarrow>
               if nodo fs (butlast q) = Some Dir then Inr (q, metti q (File []) fs)
               else Inl ENOENT))"

definition samefile :: "fs \<Rightarrow> string \<Rightarrow> string \<Rightarrow> bool" where
  "samefile fs a b =
     (case stat fs a of
        Inl _ \<Rightarrow> False
      | Inr (qa, _) \<Rightarrow> (case stat fs b of Inl _ \<Rightarrow> False | Inr (qb, _) \<Rightarrow> qa = qb))"

definition shutil_copy2 :: "fs \<Rightarrow> string \<Rightarrow> string \<Rightarrow> (errore + unit) \<times> fs" where
  "shutil_copy2 fs src dst0 =
     (let dst = (if os_path_isdir fs dst0 then os_path_join dst0 (os_path_basename src) else dst0)
      in if samefile fs src dst then (Inl SameFileError, fs)
         else (case stat fs src of
                 Inl e \<Rightarrow> (Inl e, fs)
               | Inr (_, Dir) \<Rightarrow> (Inl EISDIR, fs)
               | Inr (_, File c) \<Rightarrow>
                   (case apri_scrittura fs dst of
                      Inl e \<Rightarrow> (Inl e, fs)
                    | Inr (q, fs1) \<Rightarrow> (Inr (), scrivi_in_coda fs1 q c))))"

definition os_unlink :: "fs \<Rightarrow> string \<Rightarrow> (errore + unit) \<times> fs" where
  "os_unlink fs p =
     (case stat fs p of
        Inl e \<Rightarrow> (Inl e, fs)
      | Inr (_, Dir) \<Rightarrow> (Inl EISDIR, fs)
      | Inr (q, File _) \<Rightarrow> (Inr (), togli q fs))"

definition copia_sottoalbero :: "string list \<Rightarrow> string list \<Rightarrow> fs \<Rightarrow> fs" where
  "copia_sottoalbero qs qd fs =
     fs @ map (\<lambda>(k, n). (qd @ drop (length qs) k, n))
            (filter (\<lambda>(k, n). sotto qs k \<and> k \<noteq> qs) fs)"

definition shutil_copytree :: "fs \<Rightarrow> string \<Rightarrow> string \<Rightarrow> (errore + unit) \<times> fs" where
  "shutil_copytree fs src dst =
     (case stat fs src of
        Inl e \<Rightarrow> (Inl e, fs)
      | Inr (_, File _) \<Rightarrow> (Inl ENOTDIR, fs)
      | Inr (qs, Dir) \<Rightarrow>
          (case os_makedirs fs dst of
             (Inl e, fs1) \<Rightarrow> (Inl e, fs1)
           | (Inr _, fs1) \<Rightarrow>
               (case risolvi fs1 dst of
                  Inl e \<Rightarrow> (Inl e, fs1)
                | Inr qd \<Rightarrow> (Inr (), copia_sottoalbero qs qd fs1))))"

definition shutil_rmtree :: "fs \<Rightarrow> string \<Rightarrow> (errore + unit) \<times> fs" where
  "shutil_rmtree fs p =
     (case stat fs p of
        Inl e \<Rightarrow> (Inl e, fs)
      | Inr (_, File _) \<Rightarrow> (Inl ENOTDIR, fs)
      | Inr (q, Dir) \<Rightarrow> (Inr (), filter (\<lambda>(k, n). \<not> sotto q k) fs))"

text \<open>
  \<^verbatim>\<open>shutil.move(src, dst)\<close>:
  \<^verbatim>\<open>
      real_dst = dst
      if os.path.isdir(dst):
          if _samefile(src, dst) and not os.path.islink(src):
              os.rename(src, dst); return
          real_dst = os.path.join(dst, _basename(src))
          if os.path.exists(real_dst):
              raise Error("Destination path '%s' already exists" % real_dst)
      try:
          os.rename(src, real_dst)
      except OSError:
          if os.path.islink(src): ...
          elif os.path.isdir(src):
              if _destinsrc(src, dst):
                  raise Error("Cannot move a directory '%s' into itself '%s'." % (src, dst))
              copytree(src, real_dst, copy_function=copy_function, symlinks=True)
              rmtree(src)
          else:
              copy_function(src, real_dst)
              os.unlink(src)
      return real_dst
  \<close>
  The result is the tree at the point where the call returns or raises.
\<close>

definition shutil_basename :: "string \<Rightarrow> string" where
  "shutil_basename p = os_path_basename (rev (dropWhile (\<lambda>c. c = CHR ''/'') (rev p)))"

definition con_barra :: "string \<Rightarrow> string" where
  "con_barra p = (if p \<noteq> [] \<and> last p = CHR ''/'' then p else p @ ''/'')"

definition destinsrc :: "string \<Rightarrow> string \<Rightarrow> bool" where
  "destinsrc src dst =
     startswith (con_barra (os_path_abspath dst)) (con_barra (os_path_abspath src))"

definition shutil_move :: "fs \<Rightarrow> string \<Rightarrow> string \<Rightarrow> (errore + unit) \<times> fs" where
  "shutil_move fs src dst =
     (if os_path_isdir fs dst \<and> samefile fs src dst then
        (case os_rename fs src dst of Inl e \<Rightarrow> (Inl e, fs) | Inr fs' \<Rightarrow> (Inr (), fs'))
      else
        (let real_dst = (if os_path_isdir fs dst then os_path_join dst (shutil_basename src)
                         else dst)
         in if os_path_isdir fs dst \<and> os_path_exists fs real_dst then (Inl ShutilError, fs)
            else (case os_rename fs src real_dst of
                    Inr fs' \<Rightarrow> (Inr (), fs')
                  | Inl _ \<Rightarrow>
                      if os_path_isdir fs src then
                        (if destinsrc src dst then (Inl ShutilError, fs)
                         else (case shutil_copytree fs src real_dst of
                                 (Inl e, fs1) \<Rightarrow> (Inl e, fs1)
                               | (Inr _, fs1) \<Rightarrow> shutil_rmtree fs1 src))
                      else
                        (case shutil_copy2 fs src real_dst of
                           (Inl e, fs1) \<Rightarrow> (Inl e, fs1)
                         | (Inr _, fs1) \<Rightarrow> os_unlink fs1 src))))"

subsection \<open>sposta_file\<close>

text \<open>
  \<^verbatim>\<open>
  def sposta_file(file_path, folder_path, categoria):
      destinazione_cartella = os.path.join(folder_path, categoria)
      if not os.path.exists(destinazione_cartella):
          os.makedirs(destinazione_cartella)
      nome_file = os.path.basename(file_path)
      nuovo_percorso = os.path.join(destinazione_cartella, nome_file)
      shutil.move(file_path, nuovo_percorso)
      return nuovo_percorso
  \<close>
  The function catches nothing: an exception of \<^verbatim>\<open>os.makedirs\<close> or
  \<^verbatim>\<open>shutil.move\<close> leaves it with the tree as it is at that point.
\<close>

definition sposta_file :: "fs \<Rightarrow> string \<Rightarrow> string \<Rightarrow> string \<Rightarrow> (errore + string) \<times> fs" where
  "sposta_file fs file_path folder_path categoria =
     (let destinazione_cartella = os_path_join folder_path categoria
      in case (if \<not> os_path_exists fs destinazione_cartella
               then os_makedirs fs destinazione_cartella else (Inr (), fs)) of
           (Inl e, fs1) \<Rightarrow> (Inl e, fs1)
         | (Inr _, fs1) \<Rightarrow>
             (let nome_file = os_path_basename file_path;
                  nuovo_percorso = os_path_join destinazione_cartella nome_file
              in case shutil_move fs1 file_path nuovo_percorso of
                   (Inl e, fs2) \<Rightarrow> (Inl e, fs2)
                 | (Inr _, fs2) \<Rightarrow> (Inr nuovo_percorso, fs2)))"

subsection \<open>scrivi_log_csv\<close>

text \<open>
  \<^verbatim>\<open>
  def scrivi_log_csv(file_info, csv_path):
      file_esiste = os.path.exists(csv_path)
      with open(csv_path, mode='a', newline='', encoding='utf-8') as csvfile:
          intestazioni = ['Nome', 'Tipo', 'Size Byte','Percorso']
          writer = csv.DictWriter(csvfile, fieldnames=intestazioni)
          if not file_esiste:
              writer.writeheader()
          writer.writerow(file_info)
  \<close>
  \<^verbatim>\<open>writeheader\<close> and \<^verbatim>\<open>writerow\<close> each write their row with one call of
  \<^verbatim>\<open>write\<close>. When one of them raises, the \<^verbatim>\<open>with\<close> block closes the file:
  a file that \<^verbatim>\<open>open\<close> has created stays, with what was written before.
\<close>

definition intestazioni :: "string list" where
  "intestazioni = [''Nome'', ''Tipo'', ''Size Byte'', ''Percorso'']"

definition scrivi_log_csv :: "fs \<Rightarrow> (string \<times> valore) list \<Rightarrow> string \<Rightarrow> (errore + unit) \<times> fs" where
  "scrivi_log_csv fs file_info csv_path =
     (let file_esiste = os_path_exists fs csv_path
      in case apri_append fs csv_path of
           Inl e \<Rightarrow> (Inl e, fs)
         | Inr (q, fs1) \<Rightarrow>
             (case (if \<not> file_esiste then file_write fs1 q (dict_writeheader intestazioni)
                    else (Inr (), fs1)) of
                (Inl e, fs2) \<Rightarrow> (Inl e, fs2)
              | (Inr _, fs2) \<Rightarrow>
                  (case dict_writerow intestazioni file_info of
                     Inl e \<Rightarrow> (Inl e, fs2)
                   | Inr riga \<Rightarrow> file_write fs2 q riga)))"

text \<open>Calling \<^const>\<open>scrivi_log_csv\<close> once for each record of a list, on the same path.\<close>

fun scrivi_tutti :: "fs \<Rightarrow> (string \<times> valore) list list \<Rightarrow> string \<Rightarrow> (errore + unit) \<times> fs" where
  "scrivi_tutti fs [] csv_path = (Inr (), fs)"
| "scrivi_tutti fs (file_info # altri) csv_path =
     (case scrivi_log_csv fs file_info csv_path of
        (Inl e, fs') \<Rightarrow> (Inl e, fs')
      | (Inr _, fs') \<Rightarrow> scrivi_tutti fs' altri csv_path)"

text \<open>The dictionary \<^verbatim>\<open>main\<close> builds for a file it has moved.\<close>

definition file_info_di :: "string \<Rightarrow> string \<Rightarrow> int \<Rightarrow> string \<Rightarrow> (string \<times> valore) list" where
  "file_info_di filename mime_type dimensione nuovo_percorso =
     [(''Nome'', VStr filename), (''Tipo'', VStr mime_type),
      (''Size Byte'', VInt dimensione), (''Percorso'', VStr nuovo_percorso)]"

subsection \<open>get_mime_type\<close>

text \<open>
  \<^verbatim>\<open>
  def get_mime_type(file_path):
      mime_type, _ = mimetypes.guess_type(file_path)
      if mime_type is None:
          mime_type = 'Tipo sconosciuto'
      size = os.path.getsize(file_path)
      return mime_type, size
  \<close>
  The table of \<^verbatim>\<open>mimetypes\<close> depends on the installation; \<^verbatim>\<open>guess\<close> stands for
  the first component of \<^verbatim>\<open>mimetypes.guess_type\<close>.
\<close>

definition get_mime_type :: "(string \<Rightarrow> string option) \<Rightarrow> fs \<Rightarrow> string \<Rightarrow> errore + string \<times> int" where
  "get_mime_type guess fs file_path =
     (let mime_type = (case guess file_path of None \<Rightarrow> ''Tipo sconosciuto'' | Some m \<Rightarrow> m)
      in case os_path_getsize fs file_path of
           Inl e \<Rightarrow> Inl e
         | Inr dimensione \<Rightarrow> Inr (mime_type, dimensione))"

subsection \<open>main\<close>

text \<open>
  What a run shows: the exit status and the messages printed, each message with the values
  its text is formatted from, and the tree it leaves.
\<close>

datatype messaggio =
    ErroreCartella string
  | Eccezione errore
  | FileDisponibili string "string list"
  | NessunFile string
  | ErroreNonValido string string "string list"
  | ErroreMime string errore
  | NonRiconosciuto string string
  | ErroreSpostamento string errore
  | ErroreLog string errore
  | Riepilogo string string int string string string

type_synonym esito = "int \<times> messaggio list \<times> fs"

text \<open>
  \<^verbatim>\<open>main\<close>. The folder comes from the command line or, when missing or empty, from
  the reply to the prompt; a folder that is not a directory ends the run with status 1. The
  files of the folder that can be moved are listed and sorted:
  \<^verbatim>\<open>
      tipi_validi = ('image', 'audio', 'text', 'application')
      available_files = []
      for f in os.listdir(folder_path):
          full_path = os.path.join(folder_path, f)
          if os.path.isfile(full_path) and f != 'recap.csv':
              mime_info = mimetypes.guess_type(full_path)
              if mime_info[0] and mime_info[0].split('/')[0] in tipi_validi:
                  available_files.append(f)
      available_files.sort()
  \<close>
  Without a file name the list is printed (status 0); a file name outside the list is an
  error (status 1). Then the file is processed:
  \<^verbatim>\<open>
      file_path = os.path.join(folder_path, filename)
      try:
          mime_type, size = get_mime_type(file_path)
      except Exception as e:
          print(f"Errore nel rilevare il tipo MIME ..."); sys.exit(1)
      categoria = classifica_file(mime_type)
      if categoria is None:
          print(f"File '{filename}' di tipo '{mime_type}' non riconosciuto, ...")
          sys.exit(0)
      try:
          nuovo_percorso = sposta_file(file_path, folder_path, categoria)
      except Exception as e:
          print(f"Errore durante lo spostamento del file '{filename}': {e}"); sys.exit(1)
      file_info = {'Nome': filename, 'Tipo': mime_type, 'Size Byte': size,
                   'Percorso': nuovo_percorso}
      csv_path = os.path.join(folder_path, 'recap.csv')
      try:
          scrivi_log_csv(file_info, csv_path)
      except Exception as e:
          print(f"Errore durante la scrittura del log nel file '{csv_path}': {e}")
          pass
      print(... riepilogo ...)
  \<close>
  A run that reaches the end leaves with status 0. \<^verbatim>\<open>os.listdir\<close> is not guarded:
  its exception ends the run with status 1. The standard output is taken to accept every
  string, as it does with the error handler \<^verbatim>\<open>surrogateescape\<close> that Python
  gives it in the C locale.
\<close>

definition tipi_validi :: "string list" where
  "tipi_validi = [''image'', ''audio'', ''text'', ''application'']"

definition spostabile :: "(string \<Rightarrow> string option) \<Rightarrow> fs \<Rightarrow> string \<Rightarrow> string \<Rightarrow> bool" where
  "spostabile guess fs folder_path f =
     (let full_path = os_path_join folder_path f
      in os_path_isfile fs full_path \<and> f \<noteq> ''recap.csv'' \<and>
         (case guess full_path of
            None \<Rightarrow> False
          | Some m \<Rightarrow> m \<noteq> [] \<and> tipo_principale m \<in> set tipi_validi))"

definition main ::
  "(string \<Rightarrow> string option) \<Rightarrow> fs \<Rightarrow> string option \<Rightarrow> string option \<Rightarrow> string \<Rightarrow> esito" where
  "main guess fs filename directory risposta =
     (let folder_path = (case directory of
                           None \<Rightarrow> risposta
                         | Some d \<Rightarrow> if d = [] then risposta else d)
      in if \<not> os_path_isdir fs folder_path then (1, [ErroreCartella folder_path], fs)
         else (case os_listdir fs folder_path of
                 Inl e \<Rightarrow> (1, [Eccezione e], fs)
               | Inr nomi \<Rightarrow>
                   (let available_files = sort (filter (spostabile guess fs folder_path) nomi);
                        elenco = (if available_files \<noteq> []
                                  then FileDisponibili folder_path available_files
                                  else NessunFile folder_path)
                    in case filename of
                         None \<Rightarrow> (0, [elenco], fs)
                       | Some f \<Rightarrow>
                           if f = [] then (0, [elenco], fs)
                           else if f \<notin> set available_files then
                             (1, [ErroreNonValido f folder_path available_files], fs)
                           else
                             (let file_path = os_path_join folder_path f
                              in case get_mime_type guess fs file_path of
                                   Inl e \<Rightarrow> (1, [ErroreMime f e], fs)
                                 | Inr (mime_type, dimensione) \<Rightarrow>
                                     (case classifica_file (Some mime_type) of
                                        None \<Rightarrow> (0, [NonRiconosciuto f mime_type], fs)
                                      | Some categoria \<Rightarrow>
                                          (case sposta_file fs file_path folder_path categoria of
                                             (Inl e, fs1) \<Rightarrow> (1, [ErroreSpostamento f e], fs1)
                                           | (Inr nuovo_percorso, fs1) \<Rightarrow>
                                               (let file_info = file_info_di f mime_type dimensione
                                                                  nuovo_percorso;
                                                    csv_path = os_path_join folder_path ''recap.csv'';
                                                    riepilogo = Riepilogo f mime_type dimensione
                                                                  categoria nuovo_percorso csv_path
                                                in case scrivi_log_csv fs1 file_info csv_path of
                                                     (Inl e, fs2) \<Rightarrow>
                                                       (0, [ErroreLog csv_path e, riepilogo], fs2)
                                                   | (Inr _, fs2) \<Rightarrow> (0, [riepilogo], fs2))))))))"

subsection \<open>Notions used in the statements\<close>

text \<open>
  A proper name of a directory entry: not empty, not \<^verbatim>\<open>.\<close> or \<^verbatim>\<open>..\<close>, without a
  separator. All directories above a canonical path exist.
\<close>

definition nome_semplice :: "string \<Rightarrow> bool" where
  "nome_semplice n = (n \<noteq> [] \<and> n \<noteq> ''.'' \<and> n \<noteq> ''..'' \<and> CHR ''/'' \<notin> set n)"

definition antenati_dir :: "fs \<Rightarrow> string list \<Rightarrow> bool" where
  "antenati_dir fs cur = (\<forall>k < length cur. nodo fs (take k cur) = Some Dir)"


subsection \<open>Concrete trees and records\<close>

text \<open>A folder without a ledger, with an empty ledger, and the ledgers after some appends.\<close>

definition registro_vuoto :: fs where
  "registro_vuoto = [([''files''], Dir)]"

definition registro_zero :: fs where
  "registro_zero = [([''files''], Dir), ([''files'', ''recap.csv''], File [])]"

definition info_a :: "(string \<times> valore) list" where
  "info_a = [(''Nome'', VStr ''a,b.txt''), (''Tipo'', VStr ''text/plain''),
             (''Size Byte'', VInt 12), (''Percorso'', VStr ''./files/documenti/a,b.txt'')]"

definition info_b :: "(string \<times> valore) list" where
  "info_b = [(''Nome'', VStr ''song.mp3''), (''Tipo'', VStr ''audio/mpeg''),
             (''Size Byte'', VInt 3), (''Percorso'', VStr ''./files/audio/song.mp3'')]"

definition registro_b :: fs where
  "registro_b = [([''files''], Dir), ([''files'', ''recap.csv''],
     File (''Nome,Tipo,Size Byte,Percorso'' @ [CR, LF]
           @ ''song.mp3,audio/mpeg,3,./files/audio/song.mp3'' @ [CR, LF]))]"

definition registro_zero_b :: fs where
  "registro_zero_b = [([''files''], Dir), ([''files'', ''recap.csv''],
     File (''song.mp3,audio/mpeg,3,./files/audio/song.mp3'' @ [CR, LF]))]"

definition registro_a :: fs where
  "registro_a = [([''files''], Dir), ([''files'', ''recap.csv''],
     File (''Nome,Tipo,Size Byte,Percorso'' @ [CR, LF]
           @ [DQ] @ ''a,b.txt'' @ [DQ] @ '',text/plain,12,'' @ [DQ] @ ''files/doc'' @ [LF]
           @ ''umenti/a,b.txt'' @ [DQ] @ [CR, LF]))]"

definition registro_b_a :: fs where
  "registro_b_a = [([''files''], Dir), ([''files'', ''recap.csv''],
     File (''Nome,Tipo,Size Byte,Percorso'' @ [CR, LF]
           @ ''song.mp3,audio/mpeg,3,./files/audio/song.mp3'' @ [CR, LF]
           @ [DQ] @ ''a,b.txt'' @ [DQ] @ '',text/plain,12,'' @ [DQ] @ ''files/doc'' @ [LF]
           @ ''umenti/a,b.txt'' @ [DQ] @ [CR, LF]))]"

definition registro_zero_a_b :: fs where
  "registro_zero_a_b = [([''files''], Dir), ([''files'', ''recap.csv''],
     File ([DQ] @ ''a,b.txt'' @ [DQ] @ '',text/plain,12,'' @ [DQ] @ ''./files/documenti/a,b.txt'' @ [DQ]
           @ [CR, LF] @ ''song.mp3,audio/mpeg,3,./files/audio/song.mp3'' @ [CR, LF]))]"

text \<open>
  Folders with files to move: two audio files; the same after one and after two
  relocations; a regular file named \<^verbatim>\<open>audio\<close> where the category directory belongs; a
  directory named \<^verbatim>\<open>recap.csv\<close> where the ledger belongs; the first folder with an
  empty category directory; a directory that has the name of the file, and holds a file of
  that name, in the category directory; a file whose name has a byte that is not UTF-8, with
  the tree after its relocation and after the failed entry in the ledger; a video beside an audio file; a file of unknown
  type. Tables of media types.
\<close>

definition albero :: fs where
  "albero = [([''files''], Dir), ([''files'', ''song.mp3''], File ''abc''),
             ([''files'', ''tune.mp3''], File ''de'')]"

definition albero_1 :: fs where
  "albero_1 = [([''files''], Dir), ([''files'', ''tune.mp3''], File ''de''),
               ([''files'', ''audio''], Dir), ([''files'', ''audio'', ''song.mp3''], File ''abc'')]"

definition albero_2 :: fs where
  "albero_2 = [([''files''], Dir), ([''files'', ''audio''], Dir),
               ([''files'', ''audio'', ''song.mp3''], File ''abc''),
               ([''files'', ''audio'', ''tune.mp3''], File ''de'')]"











definition albero_video :: fs where
  "albero_video = [([''files''], Dir), ([''files'', ''clip.mp4''], File ''abcd''),
                   ([''files'', ''song.mp3''], File ''abc'')]"

definition albero_xyz :: fs where
  "albero_xyz = [([''files''], Dir), ([''files'', ''song.xyz''], File ''abc'')]"

definition nessun_tipo :: "string \<Rightarrow> string option" where
  "nessun_tipo p = None"

definition tabella :: "string \<Rightarrow> string option" where
  "tabella p =
     (if os_path_basename p = ''song.mp3'' \<or> os_path_basename p = ''tune.mp3'' then Some ''audio/mpeg''
      else None)"


definition tabella_video :: "string \<Rightarrow> string option" where
  "tabella_video p =
     (if os_path_basename p = ''clip.mp4'' then Some ''video/mp4'' else tabella p)"

section \<open>Properties\<close>

subsection \<open>Strings\<close>

lemma startswith_iff: "startswith s p \<longleftrightarrow> (\<exists>r. s = p @ r)"
proof
  assume "startswith s p"
  then have "s = p @ drop (length p) s"
    unfolding startswith_def by (metis append_take_drop_id)
  then show "\<exists>r. s = p @ r" ..
next
  assume "\<exists>r. s = p @ r"
  then show "startswith s p" unfolding startswith_def by auto
qed

lemma split_sep_not_Nil: "split_sep s \<noteq> []"
  by (induction s) (auto split: list.splits)

lemma hd_split_sep_prefix: "\<exists>r. s = hd (split_sep s) @ r"
proof (induction s)
  case Nil
  show ?case by simp
next
  case (Cons c s)
  then obtain r where r: "s = hd (split_sep s) @ r" by blast
  show ?case
  proof (cases "c = CHR ''/''")
    case True
    then show ?thesis by simp
  next
    case False
    obtain x xs where x: "split_sep s = x # xs"
      using split_sep_not_Nil [of s] by (cases "split_sep s") auto
    with r have "c # s = hd (split_sep (c # s)) @ r" using False by simp
    then show ?thesis ..
  qed
qed

lemma tipo_principale_startswith: "tipo_principale m = t \<Longrightarrow> startswith m t"
  unfolding tipo_principale_def startswith_iff using hd_split_sep_prefix [of m] by auto

subsection \<open>The classifier\<close>

lemma prefissi_esclusivi:
  "startswith m ''image'' \<Longrightarrow> \<not> startswith m ''audio''"
  "startswith m ''application'' \<Longrightarrow> \<not> startswith m ''audio'' \<and> \<not> startswith m ''image''"
  "startswith m ''text'' \<Longrightarrow> \<not> startswith m ''audio'' \<and> \<not> startswith m ''image''"
  unfolding startswith_iff by auto

lemma classifica_audio: "startswith m ''audio'' \<Longrightarrow> classifica_file (Some m) = Some ''audio''"
  by (simp add: classifica_file_def)

lemma classifica_image: "startswith m ''image'' \<Longrightarrow> classifica_file (Some m) = Some ''immagini''"
  using prefissi_esclusivi(1) [of m] by (simp add: classifica_file_def)

lemma classifica_documenti:
  "startswith m ''application'' \<or> startswith m ''text'' \<Longrightarrow>
   classifica_file (Some m) = Some ''documenti''"
  using prefissi_esclusivi(2) [of m] prefissi_esclusivi(3) [of m]
  by (auto simp add: classifica_file_def)

lemma sconosciuto_prefissi:
  "\<not> startswith ''Tipo sconosciuto'' ''audio''" "\<not> startswith ''Tipo sconosciuto'' ''image''"
  "\<not> startswith ''Tipo sconosciuto'' ''application''" "\<not> startswith ''Tipo sconosciuto'' ''text''"
  unfolding startswith_iff by auto

text \<open>
  C1 (as amended). \<^const>\<open>classifica_file\<close> is a total function that tests prefixes of the
  whole string, not the top-level token. Every string that begins with \<^verbatim>\<open>audio\<close> is
  classified \<^verbatim>\<open>audio\<close>, every string that begins with \<^verbatim>\<open>image\<close> is classified
  \<^verbatim>\<open>immagini\<close>, every string that begins with \<^verbatim>\<open>application\<close> or
  \<^verbatim>\<open>text\<close> is classified \<^verbatim>\<open>documenti\<close>, and every other string, among them
  the sentinel \<^verbatim>\<open>Tipo sconosciuto\<close>, is classified \<^verbatim>\<open>None\<close>; \<^verbatim>\<open>None\<close> is
  classified \<^verbatim>\<open>None\<close>. In particular a media type whose top-level token is one of the
  four words gets the category of that word.
\<close>

theorem classifica_file_prefissi:
  "((\<exists>r. m = ''audio'' @ r) \<longrightarrow> classifica_file (Some m) = Some ''audio'') \<and>
   ((\<exists>r. m = ''image'' @ r) \<longrightarrow> classifica_file (Some m) = Some ''immagini'') \<and>
   ((\<exists>r. m = ''application'' @ r \<or> m = ''text'' @ r)
      \<longrightarrow> classifica_file (Some m) = Some ''documenti'') \<and>
   (\<not> (\<exists>r. m = ''audio'' @ r \<or> m = ''image'' @ r \<or> m = ''application'' @ r \<or> m = ''text'' @ r)
      \<longrightarrow> classifica_file (Some m) = None) \<and>
   (tipo_principale m = ''audio'' \<longrightarrow> classifica_file (Some m) = Some ''audio'') \<and>
   (tipo_principale m = ''image'' \<longrightarrow> classifica_file (Some m) = Some ''immagini'') \<and>
   (tipo_principale m = ''application'' \<or> tipo_principale m = ''text''
      \<longrightarrow> classifica_file (Some m) = Some ''documenti'') \<and>
   classifica_file (Some ''Tipo sconosciuto'') = None \<and>
   classifica_file None = None"
proof -
  have pa: "(\<exists>r. m = ''audio'' @ r) \<longrightarrow> classifica_file (Some m) = Some ''audio''"
    using classifica_audio [of m] unfolding startswith_iff by blast
  have pi: "(\<exists>r. m = ''image'' @ r) \<longrightarrow> classifica_file (Some m) = Some ''immagini''"
    using classifica_image [of m] unfolding startswith_iff by blast
  have pd: "(\<exists>r. m = ''application'' @ r \<or> m = ''text'' @ r)
      \<longrightarrow> classifica_file (Some m) = Some ''documenti''"
    using classifica_documenti [of m] unfolding startswith_iff by blast
  have "\<not> (startswith m ''audio'' \<or> startswith m ''image'' \<or> startswith m ''application''
          \<or> startswith m ''text'') \<longrightarrow> classifica_file (Some m) = None"
    by (simp add: classifica_file_def)
  then have pn: "\<not> (\<exists>r. m = ''audio'' @ r \<or> m = ''image'' @ r \<or> m = ''application'' @ r
          \<or> m = ''text'' @ r) \<longrightarrow> classifica_file (Some m) = None"
    unfolding startswith_iff by blast
  have a: "tipo_principale m = ''audio'' \<longrightarrow> classifica_file (Some m) = Some ''audio''"
    using tipo_principale_startswith [of m "''audio''"] classifica_audio by blast
  have i: "tipo_principale m = ''image'' \<longrightarrow> classifica_file (Some m) = Some ''immagini''"
    using tipo_principale_startswith [of m "''image''"] classifica_image by blast
  have d: "tipo_principale m = ''application'' \<or> tipo_principale m = ''text''
      \<longrightarrow> classifica_file (Some m) = Some ''documenti''"
    using tipo_principale_startswith [of m "''application''"]
      tipo_principale_startswith [of m "''text''"] classifica_documenti [of m] by blast
  have s: "classifica_file (Some ''Tipo sconosciuto'') = None"
    using sconosciuto_prefissi by (simp add: classifica_file_def)
  have z: "classifica_file None = None"
    by (simp add: classifica_file_def)
  show ?thesis by (intro conjI) (fact pa pi pd pn a i d s z)+
qed

theorem classifica_file_prefissi_witness:
  "(\<exists>r. ''audiobook/x'' = ''audio'' @ r) \<and> classifica_file (Some ''audiobook/x'') = Some ''audio'' \<and>
   (\<exists>r. ''imagery/x'' = ''image'' @ r) \<and> classifica_file (Some ''imagery/x'') = Some ''immagini'' \<and>
   (\<exists>r. ''textbook/x'' = ''application'' @ r \<or> ''textbook/x'' = ''text'' @ r) \<and>
   classifica_file (Some ''textbook/x'') = Some ''documenti'' \<and>
   \<not> (\<exists>r. ''video/mp4'' = ''audio'' @ r \<or> ''video/mp4'' = ''image'' @ r
          \<or> ''video/mp4'' = ''application'' @ r \<or> ''video/mp4'' = ''text'' @ r) \<and>
   classifica_file (Some ''video/mp4'') = None \<and>
   tipo_principale ''audio/mpeg'' = ''audio'' \<and> classifica_file (Some ''audio/mpeg'') = Some ''audio'' \<and>
   tipo_principale ''image/png'' = ''image'' \<and> classifica_file (Some ''image/png'') = Some ''immagini'' \<and>
   tipo_principale ''text/plain'' = ''text'' \<and> classifica_file (Some ''text/plain'') = Some ''documenti''"
proof -
  have e1: "\<exists>r. ''audiobook/x'' = ''audio'' @ r" by simp
  have e2: "\<exists>r. ''imagery/x'' = ''image'' @ r" by simp
  have e3: "\<exists>r. ''textbook/x'' = ''application'' @ r \<or> ''textbook/x'' = ''text'' @ r" by simp
  have e4: "\<not> (\<exists>r. ''video/mp4'' = ''audio'' @ r \<or> ''video/mp4'' = ''image'' @ r
              \<or> ''video/mp4'' = ''application'' @ r \<or> ''video/mp4'' = ''text'' @ r)"
    by simp
  have t1: "tipo_principale ''audio/mpeg'' = ''audio''" by (simp add: tipo_principale_def)
  have t2: "tipo_principale ''image/png'' = ''image''" by (simp add: tipo_principale_def)
  have t3: "tipo_principale ''text/plain'' = ''text''" by (simp add: tipo_principale_def)
  note p1 = classifica_file_prefissi [of "''audiobook/x''", THEN conjunct1, THEN mp, OF e1]
  note p2 = classifica_file_prefissi [of "''imagery/x''", THEN conjunct2, THEN conjunct1, THEN mp, OF e2]
  note p3 = classifica_file_prefissi [of "''textbook/x''", THEN conjunct2, THEN conjunct2,
      THEN conjunct1, THEN mp, OF e3]
  note p4 = classifica_file_prefissi [of "''video/mp4''", THEN conjunct2, THEN conjunct2,
      THEN conjunct2, THEN conjunct1, THEN mp, OF e4]
  note c1 = classifica_file_prefissi [of "''audio/mpeg''", THEN conjunct2, THEN conjunct2,
      THEN conjunct2, THEN conjunct2, THEN conjunct1, THEN mp, OF t1]
  note c2 = classifica_file_prefissi [of "''image/png''", THEN conjunct2, THEN conjunct2,
      THEN conjunct2, THEN conjunct2, THEN conjunct2, THEN conjunct1, THEN mp, OF t2]
  note c3 = classifica_file_prefissi [of "''text/plain''", THEN conjunct2, THEN conjunct2,
      THEN conjunct2, THEN conjunct2, THEN conjunct2, THEN conjunct2, THEN conjunct1, THEN mp,
      OF disjI2 [OF t3]]
  show ?thesis by (intro conjI) (fact e1 e2 e3 e4 t1 t2 t3 p1 p2 p3 p4 c1 c2 c3)+
qed

text \<open>
  The claim as first stated fails: the top-level token of \<^verbatim>\<open>audiobook/x\<close> is
  \<^verbatim>\<open>audiobook\<close>, none of the four recognised tokens, and the result is \<^verbatim>\<open>audio\<close>.
\<close>

theorem classifica_file_token_counterexample:
  "tipo_principale ''audiobook/x'' = ''audiobook'' \<and>
   classifica_file (Some ''audiobook/x'') = Some ''audio''"
proof -
  have "tipo_principale ''audiobook/x'' = ''audiobook''" by (simp add: tipo_principale_def)
  moreover have "startswith ''audiobook/x'' ''audio''" unfolding startswith_iff by simp
  ultimately show ?thesis by (simp add: classifica_file_def)
qed

subsection \<open>Reading back what the writer wrote\<close>

lemma leggi_plain:
  "\<forall>c \<in> set s. \<not> speciale c \<Longrightarrow>
   leggi InField campo campi (s @ rest) = leggi InField (campo @ s) campi rest"
  by (induction s arbitrary: campo) (auto simp: speciale_def)

lemma leggi_quoted:
  "leggi InQuotedField campo campi (concat (map (\<lambda>c. if c = DQ then [DQ, DQ] else [c]) s) @ DQ # rest)
   = leggi QuoteInQuotedField (campo @ s) campi rest"
  by (induction s arbitrary: campo) auto

lemma leggi_campo_virgola:
  "leggi StartField [] campi (csv_campo s @ CHR '','' # rest) = leggi StartField [] (campi @ [s]) rest"
proof (cases "\<exists>c \<in> set s. speciale c")
  case True
  then show ?thesis
    using leggi_quoted [of "[]" campi s "CHR '','' # rest"]
    by (simp add: csv_campo_def inizio_campo_def)
next
  case False
  show ?thesis
  proof (cases s)
    case Nil
    then show ?thesis by (simp add: csv_campo_def inizio_campo_def)
  next
    case (Cons a s')
    with False have a: "\<not> speciale a" and s': "\<forall>c \<in> set s'. \<not> speciale c" by auto
    from a have "passo StartField [] campi a = (InField, [a], campi, None)"
      by (simp add: inizio_campo_def speciale_def)
    then show ?thesis
      using False Cons leggi_plain [OF s', of "[a]" campi "CHR '','' # rest"]
      by (simp add: csv_campo_def)
  qed
qed

lemma leggi_campo_fine:
  "leggi StartField [] campi (csv_campo s @ CR # LF # rest) = (campi @ [s]) # leggi StartRecord [] [] rest"
proof (cases "\<exists>c \<in> set s. speciale c")
  case True
  then show ?thesis
    using leggi_quoted [of "[]" campi s "CR # LF # rest"]
    by (simp add: csv_campo_def inizio_campo_def)
next
  case False
  show ?thesis
  proof (cases s)
    case Nil
    then show ?thesis by (simp add: csv_campo_def inizio_campo_def)
  next
    case (Cons a s')
    with False have a: "\<not> speciale a" and s': "\<forall>c \<in> set s'. \<not> speciale c" by auto
    from a have "passo StartField [] campi a = (InField, [a], campi, None)"
      by (simp add: inizio_campo_def speciale_def)
    then show ?thesis
      using False Cons leggi_plain [OF s', of "[a]" campi "CR # LF # rest"]
      by (simp add: csv_campo_def)
  qed
qed

lemma leggi_unisci:
  "fs \<noteq> [] \<Longrightarrow>
   leggi StartField [] campi (csv_unisci (map csv_campo fs) @ CR # LF # rest)
   = (campi @ fs) # leggi StartRecord [] [] rest"
proof (induction fs arbitrary: campi rule: csv_unisci.induct)
  case 1
  then show ?case by simp
next
  case (2 x)
  show ?case using leggi_campo_fine [of campi x rest] by simp
next
  case (3 x y ys)
  have "leggi StartField [] (campi @ [x]) (csv_unisci (map csv_campo (y # ys)) @ CR # LF # rest)
        = ((campi @ [x]) @ (y # ys)) # leggi StartRecord [] [] rest"
    using "3.IH" [of "campi @ [x]"] by simp
  then show ?case
    using leggi_campo_virgola [of campi x "csv_unisci (map csv_campo (y # ys)) @ CR # LF # rest"]
    by simp
qed

lemma csv_campo_testa:
  "csv_campo x = c # r \<Longrightarrow> \<not> (c = CR \<or> c = LF)"
proof (cases "\<exists>c \<in> set x. speciale c")
  case True
  assume "csv_campo x = c # r"
  with True have "c = DQ" by (simp add: csv_campo_def)
  then show ?thesis by simp
next
  case False
  assume "csv_campo x = c # r"
  with False have "x = c # r" by (simp add: csv_campo_def)
  with False have "\<not> speciale c" by auto
  then show ?thesis by (simp add: speciale_def)
qed

lemma csv_unisci_testa:
  "csv_unisci (map csv_campo fs) = c # r \<Longrightarrow> \<not> (c = CR \<or> c = LF)"
proof (cases fs rule: csv_unisci.cases)
  case 1
  assume "csv_unisci (map csv_campo fs) = c # r"
  with 1 show ?thesis by simp
next
  case (2 x)
  assume "csv_unisci (map csv_campo fs) = c # r"
  with 2 have "csv_campo x = c # r" by simp
  then show ?thesis by (rule csv_campo_testa)
next
  case (3 x y ys)
  assume a: "csv_unisci (map csv_campo fs) = c # r"
  show ?thesis
  proof (cases "csv_campo x")
    case Nil
    with a 3 have "c = CHR '',''" by simp
    then show ?thesis by simp
  next
    case (Cons d t)
    with a 3 have "c = d" by simp
    with Cons csv_campo_testa [of x d t] show ?thesis by simp
  qed
qed

lemma csv_campo_vuoto: "csv_campo x = [] \<Longrightarrow> x = []"
  by (auto simp: csv_campo_def split: if_splits)

lemma csv_unisci_vuoto:
  "csv_unisci (map csv_campo fs) = [] \<Longrightarrow> fs \<noteq> [] \<Longrightarrow> fs = [[]]"
  by (cases fs rule: csv_unisci.cases) (auto dest: csv_campo_vuoto)

lemma leggi_inizio:
  "\<not> (c = CR \<or> c = LF) \<Longrightarrow> leggi StartRecord [] [] (c # t) = leggi StartField [] [] (c # t)"
  by (simp add: inizio_riga_def)

lemma leggi_writerow:
  "leggi StartRecord [] [] (csv_writerow fs @ rest) = fs # leggi StartRecord [] [] rest"
proof (cases "fs = []")
  case True
  then show ?thesis by (simp add: csv_writerow_def inizio_riga_def)
next
  case False
  show ?thesis
  proof (cases "csv_unisci (map csv_campo fs)")
    case Nil
    with False have "fs = [[]]" by (simp add: csv_unisci_vuoto)
    then show ?thesis by (simp add: csv_writerow_def csv_campo_def inizio_riga_def inizio_campo_def)
  next
    case (Cons c r)
    then have c: "\<not> (c = CR \<or> c = LF)" by (rule csv_unisci_testa)
    have "leggi StartRecord [] [] (csv_writerow fs @ rest)
          = leggi StartRecord [] [] (c # (r @ CR # LF # rest))"
      using Cons by (simp add: csv_writerow_def)
    also have "\<dots> = leggi StartField [] [] (c # (r @ CR # LF # rest))"
      using c by (rule leggi_inizio)
    also have "\<dots> = leggi StartField [] [] (csv_unisci (map csv_campo fs) @ CR # LF # rest)"
      using Cons by simp
    also have "\<dots> = fs # leggi StartRecord [] [] rest"
      using leggi_unisci [OF False, of "[]" rest] by simp
    finally show ?thesis .
  qed
qed

lemma csv_reader_righe:
  "csv_reader (concat (map csv_writerow righe)) = righe"
  unfolding csv_reader_def
  by (induction righe) (simp_all add: leggi_writerow)

subsection \<open>The file system\<close>

lemma nodo_metti:
  "p \<noteq> [] \<Longrightarrow> nodo (metti p n fs) q = (if q = p then Some n else nodo fs q)"
  by (simp add: nodo_def metti_def update_conv')

lemma nodo_togli:
  "nodo (togli p fs) q = (if q = p \<and> p \<noteq> [] then None else nodo fs q)"
  by (auto simp add: nodo_def togli_def delete_conv')

lemma nodo_radice: "nodo fs [] = Some Dir"
  by (simp add: nodo_def)

lemma cammina_mono:
  "(\<And>p. nodo fs p = Some Dir \<Longrightarrow> nodo fs' p = Some Dir) \<Longrightarrow>
   cammina fs cur cs = Inr q \<Longrightarrow> cammina fs' cur cs = Inr q"
proof (induction cs arbitrary: cur)
  case Nil
  then show ?case by simp
next
  case (Cons c cs)
  from Cons.prems(2) have d: "nodo fs cur = Some Dir"
    by (auto split: option.splits node.splits)
  then have d': "nodo fs' cur = Some Dir" by (rule Cons.prems(1))
  from Cons.prems(2) d d' Cons.IH [OF Cons.prems(1)] show ?case
    by (auto split: if_splits)
qed

lemma risolvi_mono:
  "(\<And>p. nodo fs p = Some Dir \<Longrightarrow> nodo fs' p = Some Dir) \<Longrightarrow>
   risolvi fs p = Inr q \<Longrightarrow> risolvi fs' p = Inr q"
  unfolding risolvi_def using cammina_mono [of fs fs' "[]" "split_sep p" q]
  by (auto split: if_splits)

lemma leggi_file_iff:
  "leggi_file fs p = Some c \<longleftrightarrow> (\<exists>q. risolvi fs p = Inr q \<and> nodo fs q = Some (File c))"
  by (auto simp: leggi_file_def stat_def split: sum.splits option.splits node.splits)

lemma esiste_leggi_file:
  "leggi_file fs p = Some c \<Longrightarrow> os_path_exists fs p"
  by (auto simp: leggi_file_def os_path_exists_def split: sum.splits)

subsection \<open>The ledger\<close>

text \<open>What one call does to a ledger that exists as a regular file, and to a new one.\<close>

lemma scrivi_in_coda_file:
  "nodo fs q = Some (File c) \<Longrightarrow> scrivi_in_coda fs q t = metti q (File (c @ t)) fs"
  by (simp add: scrivi_in_coda_def)

lemma scrivi_log_csv_esistente:
  assumes r: "risolvi fs p = Inr q" and n: "nodo fs q = Some (File c)"
    and ok: "scrivi_log_csv fs info p = (Inr (), fs')"
  shows "risolvi fs' p = Inr q \<and>
         nodo fs' q = Some (File (c @ csv_writerow (riga_di intestazioni info))) \<and>
         (\<forall>q'. q' \<noteq> q \<longrightarrow> nodo fs' q' = nodo fs q')"
proof -
  from n have q: "q \<noteq> []" by (auto simp: nodo_def)
  from r n have ex: "os_path_exists fs p" by (simp add: os_path_exists_def stat_def)
  from r n have ap: "apri_append fs p = Inr (q, fs)" by (simp add: apri_append_def)
  from ok ex ap n have fs': "fs' = metti q (File (c @ csv_writerow (riga_di intestazioni info))) fs"
    by (auto simp: scrivi_log_csv_def scrivi_in_coda_file file_write_def dict_writerow_def
        split: if_splits)
  have mono: "\<And>p. nodo fs p = Some Dir \<Longrightarrow> nodo fs' p = Some Dir"
    using n q by (auto simp: fs' nodo_metti)
  from mono r have "risolvi fs' p = Inr q" by (rule risolvi_mono)
  then show ?thesis using q by (simp add: fs' nodo_metti)
qed

lemma scrivi_log_csv_nuovo:
  assumes ne: "\<not> os_path_exists fs p"
    and ok: "scrivi_log_csv fs info p = (Inr (), fs')"
  shows "\<exists>q. risolvi fs' p = Inr q \<and> nodo fs q = None \<and>
         nodo fs' q = Some (File (dict_writeheader intestazioni @ csv_writerow (riga_di intestazioni info))) \<and>
         (\<forall>q'. q' \<noteq> q \<longrightarrow> nodo fs' q' = nodo fs q')"
proof -
  from ok obtain q fs1 where ap: "apri_append fs p = Inr (q, fs1)"
    by (auto simp: scrivi_log_csv_def split: sum.splits)
  then have r: "risolvi fs p = Inr q"
    by (auto simp: apri_append_def split: sum.splits option.splits node.splits if_splits)
  from ne r have n: "nodo fs q = None"
    by (auto simp: os_path_exists_def stat_def split: option.splits)
  then have q: "q \<noteq> []" by (auto simp: nodo_def)
  from ap r n have fs1: "fs1 = metti q (File []) fs"
    by (auto simp: apri_append_def split: if_splits)
  have n1: "nodo fs1 q = Some (File [])" using q by (simp add: fs1 nodo_metti)
  define fs2 where "fs2 = metti q (File (dict_writeheader intestazioni)) fs1"
  have w1: "utf8_valido (dict_writeheader intestazioni) \<Longrightarrow>
      file_write fs1 q (dict_writeheader intestazioni) = (Inr (), fs2)"
    using n1 by (simp add: file_write_def scrivi_in_coda_file fs2_def)
  have n2: "nodo fs2 q = Some (File (dict_writeheader intestazioni))"
    using q by (simp add: fs2_def nodo_metti)
  from ok ne ap w1 n2
  have fs': "fs' = metti q (File (dict_writeheader intestazioni
                                    @ csv_writerow (riga_di intestazioni info))) fs2"
    by (auto simp: scrivi_log_csv_def dict_writerow_def file_write_def scrivi_in_coda_file
        split: if_splits)
  have mono: "\<And>p. nodo fs p = Some Dir \<Longrightarrow> nodo fs' p = Some Dir"
    using n q by (auto simp: fs' fs2_def fs1 nodo_metti)
  from mono r have "risolvi fs' p = Inr q" by (rule risolvi_mono)
  then show ?thesis using q n by (auto simp add: fs' fs2_def fs1 nodo_metti)
qed

lemma scrivi_tutti_esistente:
  "risolvi fs p = Inr q \<Longrightarrow> nodo fs q = Some (File c) \<Longrightarrow>
   scrivi_tutti fs infos p = (Inr (), fs') \<Longrightarrow>
   risolvi fs' p = Inr q \<and>
   nodo fs' q = Some (File (c @ concat (map (\<lambda>i. csv_writerow (riga_di intestazioni i)) infos))) \<and>
   (\<forall>q'. q' \<noteq> q \<longrightarrow> nodo fs' q' = nodo fs q')"
proof (induction infos arbitrary: fs c)
  case Nil
  then show ?case by simp
next
  case (Cons i infos)
  from Cons.prems(3) obtain fs1 where
    s1: "scrivi_log_csv fs i p = (Inr (), fs1)" and s2: "scrivi_tutti fs1 infos p = (Inr (), fs')"
    by (auto split: prod.splits sum.splits)
  from scrivi_log_csv_esistente [OF Cons.prems(1) Cons.prems(2) s1]
  have r1: "risolvi fs1 p = Inr q"
    and n1: "nodo fs1 q = Some (File (c @ csv_writerow (riga_di intestazioni i)))"
    and f1: "\<forall>q'. q' \<noteq> q \<longrightarrow> nodo fs1 q' = nodo fs q'" by auto
  from Cons.IH [OF r1 n1 s2] f1 show ?case by simp
qed

lemma riga_di_intestazioni:
  "riga_di intestazioni info =
     [campo_di info ''Nome'', campo_di info ''Tipo'', campo_di info ''Size Byte'', campo_di info ''Percorso'']"
  by (simp add: riga_di_def intestazioni_def)

lemma writeheader_testo:
  "dict_writeheader intestazioni = ''Nome,Tipo,Size Byte,Percorso'' @ [CR, LF]"
  by (simp add: dict_writeheader_def intestazioni_def csv_writerow_def csv_campo_def speciale_def)

lemma riga_di_file_info:
  "riga_di intestazioni (file_info_di n t s p) = [n, t, str_int s, p]"
  by (simp add: riga_di_def intestazioni_def campo_di_def file_info_di_def)

text \<open>
  C2. Starting from a ledger path that does not exist, after the calls of
  \<^const>\<open>scrivi_log_csv\<close> for a non-empty list of records have all succeeded, the
  ledger is the header row followed by one row for each record, in order: read back, it has
  one header and as many record rows as there were calls. The header is written by the call
  that creates the file and by no later one.
\<close>

theorem scrivi_log_csv_intestazione_una_volta:
  assumes "\<not> os_path_exists fs csv_path" and "infos \<noteq> []"
    and "scrivi_tutti fs infos csv_path = (Inr (), fs')"
  shows "leggi_file fs' csv_path =
           Some (dict_writeheader intestazioni
                 @ concat (map (\<lambda>i. csv_writerow (riga_di intestazioni i)) infos)) \<and>
         csv_reader (dict_writeheader intestazioni
                 @ concat (map (\<lambda>i. csv_writerow (riga_di intestazioni i)) infos))
           = intestazioni # map (riga_di intestazioni) infos \<and>
         length (intestazioni # map (riga_di intestazioni) infos) = 1 + length infos"
proof -
  from assms(2) obtain i altri where infos: "infos = i # altri" by (cases infos) auto
  from assms(3) infos obtain fs1 where
    s1: "scrivi_log_csv fs i csv_path = (Inr (), fs1)"
    and s2: "scrivi_tutti fs1 altri csv_path = (Inr (), fs')"
    by (auto split: prod.splits sum.splits)
  from scrivi_log_csv_nuovo [OF assms(1) s1] obtain q where
    r1: "risolvi fs1 csv_path = Inr q"
    and n1: "nodo fs1 q = Some (File (dict_writeheader intestazioni @ csv_writerow (riga_di intestazioni i)))"
    by blast
  from scrivi_tutti_esistente [OF r1 n1 s2]
  have c: "leggi_file fs' csv_path =
           Some (dict_writeheader intestazioni
                 @ concat (map (\<lambda>i. csv_writerow (riga_di intestazioni i)) infos))"
    by (simp add: leggi_file_iff infos)
  have "dict_writeheader intestazioni @ concat (map (\<lambda>i. csv_writerow (riga_di intestazioni i)) infos)
        = concat (map csv_writerow (intestazioni # map (riga_di intestazioni) infos))"
    by (simp add: dict_writeheader_def comp_def)
  then have "csv_reader (dict_writeheader intestazioni
                 @ concat (map (\<lambda>i. csv_writerow (riga_di intestazioni i)) infos))
             = intestazioni # map (riga_di intestazioni) infos"
    by (simp only: csv_reader_righe)
  with c show ?thesis by simp
qed

theorem scrivi_log_csv_intestazione_una_volta_witness:
  "\<not> os_path_exists registro_vuoto ''files/recap.csv'' \<and>
   fst (scrivi_tutti registro_vuoto [info_a, info_b] ''files/recap.csv'') = Inr () \<and>
   leggi_file (snd (scrivi_tutti registro_vuoto [info_a, info_b] ''files/recap.csv''))
       ''files/recap.csv'' =
     Some (dict_writeheader intestazioni
           @ concat (map (\<lambda>i. csv_writerow (riga_di intestazioni i)) [info_a, info_b])) \<and>
   csv_reader (dict_writeheader intestazioni
           @ concat (map (\<lambda>i. csv_writerow (riga_di intestazioni i)) [info_a, info_b]))
     = intestazioni # map (riga_di intestazioni) [info_a, info_b] \<and>
   length (intestazioni # map (riga_di intestazioni) [info_a, info_b]) = 1 + length [info_a, info_b]"
proof -
  have h1: "\<not> os_path_exists registro_vuoto ''files/recap.csv''" by code_simp
  have h2: "[info_a, info_b] \<noteq> []" by simp
  have h3: "fst (scrivi_tutti registro_vuoto [info_a, info_b] ''files/recap.csv'') = Inr ()"
    by code_simp
  then have h4: "scrivi_tutti registro_vuoto [info_a, info_b] ''files/recap.csv''
      = (Inr (), snd (scrivi_tutti registro_vuoto [info_a, info_b] ''files/recap.csv''))"
    by (simp add: prod_eq_iff)
  show ?thesis
    by (rule conjI [OF h1 conjI [OF h3 scrivi_log_csv_intestazione_una_volta [OF h1 h2 h4]]])
qed

text \<open>
  C5 (as amended). A ledger that \<^const>\<open>scrivi_log_csv\<close> creates begins with the
  header row \<^verbatim>\<open>Nome,Tipo,Size Byte,Percorso\<close>, the column names in this order, and
  every record row, in a new ledger and in an existing one, holds the values of the keys
  \<^verbatim>\<open>Nome\<close>, \<^verbatim>\<open>Tipo\<close>, \<^verbatim>\<open>Size Byte\<close>, \<^verbatim>\<open>Percorso\<close> in the same
  order.
\<close>

theorem scrivi_log_csv_colonne:
  assumes "scrivi_log_csv fs file_info csv_path = (Inr (), fs')"
  shows "(\<not> os_path_exists fs csv_path \<longrightarrow>
            leggi_file fs' csv_path =
              Some (''Nome,Tipo,Size Byte,Percorso'' @ [CR, LF]
                    @ csv_writerow [campo_di file_info ''Nome'', campo_di file_info ''Tipo'',
                                    campo_di file_info ''Size Byte'', campo_di file_info ''Percorso''])) \<and>
         (\<forall>c. leggi_file fs csv_path = Some c \<longrightarrow>
            leggi_file fs' csv_path =
              Some (c @ csv_writerow [campo_di file_info ''Nome'', campo_di file_info ''Tipo'',
                                      campo_di file_info ''Size Byte'', campo_di file_info ''Percorso'']))"
proof (intro conjI impI allI)
  assume "\<not> os_path_exists fs csv_path"
  from scrivi_log_csv_nuovo [OF this assms] obtain q where
    "risolvi fs' csv_path = Inr q"
    "nodo fs' q = Some (File (dict_writeheader intestazioni @ csv_writerow (riga_di intestazioni file_info)))"
    by blast
  then have "leggi_file fs' csv_path =
      Some (dict_writeheader intestazioni @ csv_writerow (riga_di intestazioni file_info))"
    unfolding leggi_file_iff by blast
  then show "leggi_file fs' csv_path =
              Some (''Nome,Tipo,Size Byte,Percorso'' @ [CR, LF]
                    @ csv_writerow [campo_di file_info ''Nome'', campo_di file_info ''Tipo'',
                                    campo_di file_info ''Size Byte'', campo_di file_info ''Percorso''])"
    by (simp only: writeheader_testo riga_di_intestazioni append_assoc)
next
  fix c
  assume "leggi_file fs csv_path = Some c"
  then obtain q where r: "risolvi fs csv_path = Inr q" and n: "nodo fs q = Some (File c)"
    unfolding leggi_file_iff by blast
  from scrivi_log_csv_esistente [OF r n assms]
  have "leggi_file fs' csv_path = Some (c @ csv_writerow (riga_di intestazioni file_info))"
    unfolding leggi_file_iff by blast
  then show "leggi_file fs' csv_path =
              Some (c @ csv_writerow [campo_di file_info ''Nome'', campo_di file_info ''Tipo'',
                                      campo_di file_info ''Size Byte'', campo_di file_info ''Percorso''])"
    by (simp only: riga_di_intestazioni)
qed

theorem scrivi_log_csv_colonne_witness:
  "scrivi_log_csv registro_vuoto info_b ''files/recap.csv'' = (Inr (), registro_b) \<and>
   \<not> os_path_exists registro_vuoto ''files/recap.csv'' \<and>
   leggi_file registro_b ''files/recap.csv'' =
     Some (''Nome,Tipo,Size Byte,Percorso'' @ [CR, LF]
           @ csv_writerow [campo_di info_b ''Nome'', campo_di info_b ''Tipo'',
                           campo_di info_b ''Size Byte'', campo_di info_b ''Percorso'']) \<and>
   scrivi_log_csv registro_zero info_b ''files/recap.csv'' = (Inr (), registro_zero_b) \<and>
   leggi_file registro_zero ''files/recap.csv'' = Some [] \<and>
   leggi_file registro_zero_b ''files/recap.csv'' =
     Some ([] @ csv_writerow [campo_di info_b ''Nome'', campo_di info_b ''Tipo'',
                         campo_di info_b ''Size Byte'', campo_di info_b ''Percorso''])"
proof -
  have h2: "scrivi_log_csv registro_vuoto info_b ''files/recap.csv'' = (Inr (), registro_b)"
    by code_simp
  have h3: "\<not> os_path_exists registro_vuoto ''files/recap.csv''" by code_simp
  have k2: "scrivi_log_csv registro_zero info_b ''files/recap.csv'' = (Inr (), registro_zero_b)"
    by code_simp
  have k3: "leggi_file registro_zero ''files/recap.csv'' = Some []" by code_simp
  note a = scrivi_log_csv_colonne [OF h2, THEN conjunct1, rule_format, OF h3]
  note b = scrivi_log_csv_colonne [OF k2, THEN conjunct2, rule_format, OF k3]
  show ?thesis by (intro conjI) (fact h2 h3 a k2 k3 b)+
qed

text \<open>
  The column names are not \<^verbatim>\<open>Name, Type, SizeBytes, Path\<close>: the ledger created for
  \<^verbatim>\<open>song.mp3\<close> does not begin with that header.
\<close>

theorem intestazione_inglese_counterexample:
  "\<not> os_path_exists registro_vuoto ''files/recap.csv'' \<and>
   scrivi_log_csv registro_vuoto info_b ''files/recap.csv'' = (Inr (), registro_b) \<and>
   leggi_file registro_b ''files/recap.csv'' =
     Some (''Nome,Tipo,Size Byte,Percorso'' @ [CR, LF]
           @ ''song.mp3,audio/mpeg,3,./files/audio/song.mp3'' @ [CR, LF]) \<and>
   \<not> startswith (''Nome,Tipo,Size Byte,Percorso'' @ [CR, LF]
           @ ''song.mp3,audio/mpeg,3,./files/audio/song.mp3'' @ [CR, LF])
         (''Name,Type,SizeBytes,Path'' @ [CR, LF])"
proof -
  have h2: "scrivi_log_csv registro_vuoto info_b ''files/recap.csv'' = (Inr (), registro_b)"
    by code_simp
  have h3: "\<not> os_path_exists registro_vuoto ''files/recap.csv''" by code_simp
  have h4: "leggi_file registro_b ''files/recap.csv'' =
     Some (''Nome,Tipo,Size Byte,Percorso'' @ [CR, LF]
           @ ''song.mp3,audio/mpeg,3,./files/audio/song.mp3'' @ [CR, LF])"
    by code_simp
  have h5: "\<not> startswith (''Nome,Tipo,Size Byte,Percorso'' @ [CR, LF]
           @ ''song.mp3,audio/mpeg,3,./files/audio/song.mp3'' @ [CR, LF])
         (''Name,Type,SizeBytes,Path'' @ [CR, LF])"
    by (simp add: startswith_def)
  show ?thesis by (intro conjI) (fact h2 h3 h4 h5)+
qed

text \<open>
  C9. For every file name, media type, size and path, whatever characters the name and the
  path contain (the delimiter, quotes, line breaks), a record appended by
  \<^const>\<open>scrivi_log_csv\<close> is read back by the reader of the dialect as the original
  strings: a new ledger reads as the header and the record, a ledger of rows written before
  reads as those rows and the record.
\<close>

theorem scrivi_log_csv_andata_ritorno:
  assumes "scrivi_log_csv fs (file_info_di nome tipo dimensione percorso) csv_path = (Inr (), fs')"
  shows "(\<not> os_path_exists fs csv_path \<longrightarrow>
            map_option csv_reader (leggi_file fs' csv_path)
              = Some [intestazioni, [nome, tipo, str_int dimensione, percorso]]) \<and>
         (\<forall>righe. leggi_file fs csv_path = Some (concat (map csv_writerow righe)) \<longrightarrow>
            map_option csv_reader (leggi_file fs' csv_path)
              = Some (righe @ [[nome, tipo, str_int dimensione, percorso]]))"
proof (intro conjI impI allI)
  assume "\<not> os_path_exists fs csv_path"
  from scrivi_log_csv_nuovo [OF this assms] obtain q where
    "risolvi fs' csv_path = Inr q"
    "nodo fs' q = Some (File (dict_writeheader intestazioni
        @ csv_writerow (riga_di intestazioni (file_info_di nome tipo dimensione percorso))))"
    by blast
  then have "leggi_file fs' csv_path = Some (dict_writeheader intestazioni
        @ csv_writerow (riga_di intestazioni (file_info_di nome tipo dimensione percorso)))"
    unfolding leggi_file_iff by blast
  moreover have "dict_writeheader intestazioni
        @ csv_writerow (riga_di intestazioni (file_info_di nome tipo dimensione percorso))
      = concat (map csv_writerow [intestazioni, [nome, tipo, str_int dimensione, percorso]])"
    by (simp add: dict_writeheader_def riga_di_file_info)
  ultimately show "map_option csv_reader (leggi_file fs' csv_path)
              = Some [intestazioni, [nome, tipo, str_int dimensione, percorso]]"
    by (simp only: csv_reader_righe option.map)
next
  fix righe
  assume "leggi_file fs csv_path = Some (concat (map csv_writerow righe))"
  then obtain q where r: "risolvi fs csv_path = Inr q"
    and n: "nodo fs q = Some (File (concat (map csv_writerow righe)))"
    unfolding leggi_file_iff by blast
  from scrivi_log_csv_esistente [OF r n assms]
  have "leggi_file fs' csv_path = Some (concat (map csv_writerow righe)
        @ csv_writerow (riga_di intestazioni (file_info_di nome tipo dimensione percorso)))"
    unfolding leggi_file_iff by blast
  moreover have "concat (map csv_writerow righe)
        @ csv_writerow (riga_di intestazioni (file_info_di nome tipo dimensione percorso))
      = concat (map csv_writerow (righe @ [[nome, tipo, str_int dimensione, percorso]]))"
    by (simp add: riga_di_file_info)
  ultimately show "map_option csv_reader (leggi_file fs' csv_path)
              = Some (righe @ [[nome, tipo, str_int dimensione, percorso]])"
    by (simp only: csv_reader_righe option.map)
qed

theorem scrivi_log_csv_andata_ritorno_witness:
  "scrivi_log_csv registro_vuoto
     (file_info_di ''a,b.txt'' ''text/plain'' 12 (''files/doc'' @ [LF] @ ''umenti/a,b.txt''))
     ''files/recap.csv'' = (Inr (), registro_a) \<and>
   \<not> os_path_exists registro_vuoto ''files/recap.csv'' \<and>
   map_option csv_reader (leggi_file registro_a ''files/recap.csv'')
     = Some [intestazioni,
             [''a,b.txt'', ''text/plain'', str_int 12, ''files/doc'' @ [LF] @ ''umenti/a,b.txt'']] \<and>
   scrivi_log_csv registro_b
     (file_info_di ''a,b.txt'' ''text/plain'' 12 (''files/doc'' @ [LF] @ ''umenti/a,b.txt''))
     ''files/recap.csv'' = (Inr (), registro_b_a) \<and>
   leggi_file registro_b ''files/recap.csv''
     = Some (concat (map csv_writerow
         [intestazioni, [''song.mp3'', ''audio/mpeg'', ''3'', ''./files/audio/song.mp3'']])) \<and>
   map_option csv_reader (leggi_file registro_b_a ''files/recap.csv'')
     = Some ([intestazioni, [''song.mp3'', ''audio/mpeg'', ''3'', ''./files/audio/song.mp3'']]
         @ [[''a,b.txt'', ''text/plain'', str_int 12, ''files/doc'' @ [LF] @ ''umenti/a,b.txt'']])"
proof -
  have h2: "scrivi_log_csv registro_vuoto
     (file_info_di ''a,b.txt'' ''text/plain'' 12 (''files/doc'' @ [LF] @ ''umenti/a,b.txt''))
     ''files/recap.csv'' = (Inr (), registro_a)"
    by code_simp
  have h3: "\<not> os_path_exists registro_vuoto ''files/recap.csv''" by code_simp
  have k2: "scrivi_log_csv registro_b
     (file_info_di ''a,b.txt'' ''text/plain'' 12 (''files/doc'' @ [LF] @ ''umenti/a,b.txt''))
     ''files/recap.csv'' = (Inr (), registro_b_a)"
    by code_simp
  have k3: "leggi_file registro_b ''files/recap.csv''
     = Some (concat (map csv_writerow
         [intestazioni, [''song.mp3'', ''audio/mpeg'', ''3'', ''./files/audio/song.mp3'']]))"
    by code_simp
  note a = scrivi_log_csv_andata_ritorno [OF h2, THEN conjunct1, rule_format, OF h3]
  note b = scrivi_log_csv_andata_ritorno [OF k2, THEN conjunct2, rule_format, OF k3]
  show ?thesis by (intro conjI) (fact h2 h3 a k2 k3 b)+
qed

text \<open>
  C10. Whether the header is written depends on the existence of the ledger path alone:
  when the path is a regular file, whatever its content, the successful calls append their
  record rows to that content and nothing else. A ledger that exists and is empty holds the
  record rows only and never gets a header.
\<close>

theorem scrivi_log_csv_esistente_senza_intestazione:
  assumes "leggi_file fs csv_path = Some c"
    and "scrivi_tutti fs infos csv_path = (Inr (), fs')"
  shows "leggi_file fs' csv_path
           = Some (c @ concat (map (\<lambda>i. csv_writerow (riga_di intestazioni i)) infos)) \<and>
         (c = [] \<longrightarrow>
            map_option csv_reader (leggi_file fs' csv_path)
              = Some (map (riga_di intestazioni) infos))"
proof -
  from assms(1) obtain q where r: "risolvi fs csv_path = Inr q" and n: "nodo fs q = Some (File c)"
    unfolding leggi_file_iff by blast
  from scrivi_tutti_esistente [OF r n assms(2)]
  have l: "leggi_file fs' csv_path
           = Some (c @ concat (map (\<lambda>i. csv_writerow (riga_di intestazioni i)) infos))"
    unfolding leggi_file_iff by blast
  have "concat (map (\<lambda>i. csv_writerow (riga_di intestazioni i)) infos)
        = concat (map csv_writerow (map (riga_di intestazioni) infos))"
    by (simp add: comp_def)
  then have "csv_reader (concat (map (\<lambda>i. csv_writerow (riga_di intestazioni i)) infos))
        = map (riga_di intestazioni) infos"
    by (simp only: csv_reader_righe)
  with l show ?thesis by simp
qed

theorem scrivi_log_csv_esistente_senza_intestazione_witness:
  "leggi_file registro_zero ''files/recap.csv'' = Some [] \<and>
   scrivi_tutti registro_zero [info_a, info_b] ''files/recap.csv'' = (Inr (), registro_zero_a_b) \<and>
   leggi_file registro_zero_a_b ''files/recap.csv''
     = Some ([] @ concat (map (\<lambda>i. csv_writerow (riga_di intestazioni i)) [info_a, info_b])) \<and>
   map_option csv_reader (leggi_file registro_zero_a_b ''files/recap.csv'')
     = Some (map (riga_di intestazioni) [info_a, info_b])"
proof -
  have h1: "leggi_file registro_zero ''files/recap.csv'' = Some []" by code_simp
  have h2: "scrivi_tutti registro_zero [info_a, info_b] ''files/recap.csv'' = (Inr (), registro_zero_a_b)"
    by code_simp
  note a = scrivi_log_csv_esistente_senza_intestazione [OF h1 h2, THEN conjunct1]
  note b = scrivi_log_csv_esistente_senza_intestazione [OF h1 h2, THEN conjunct2, rule_format, OF refl]
  show ?thesis by (intro conjI) (fact h1 h2 a b)+
qed

subsection \<open>Paths\<close>

lemma split_sep_append:
  "split_sep (a @ CHR ''/'' # b) = split_sep a @ split_sep b"
proof (induction a)
  case Nil
  show ?case by simp
next
  case (Cons c a)
  obtain x xs where x: "split_sep a = x # xs"
    using split_sep_not_Nil [of a] by (cases "split_sep a") auto
  with Cons show ?case by simp
qed

lemma split_sep_semplice: "CHR ''/'' \<notin> set n \<Longrightarrow> split_sep n = [n]"
  by (induction n) auto

lemma split_sep_snoc:
  "split_sep (a @ [c]) =
     (if c = CHR ''/'' then split_sep a @ [[]]
      else butlast (split_sep a) @ [last (split_sep a) @ [c]])"
proof (induction a)
  case Nil
  show ?case by simp
next
  case (Cons d a)
  obtain x xs where x: "split_sep a = x # xs"
    using split_sep_not_Nil [of a] by (cases "split_sep a") auto
  obtain y ys where y: "split_sep (a @ [c]) = y # ys"
    using split_sep_not_Nil [of "a @ [c]"] by (cases "split_sep (a @ [c])") auto
  show ?case
  proof (cases "d = CHR ''/''")
    case True
    with Cons show ?thesis by (simp add: split_sep_not_Nil)
  next
    case False
    show ?thesis
    proof (cases "c = CHR ''/''")
      case True
      with Cons False x show ?thesis by simp
    next
      case c: False
      show ?thesis
      proof (cases xs)
        case Nil
        with Cons False x c show ?thesis by simp
      next
        case (Cons z zs)
        with Cons.IH False x c show ?thesis by simp
      qed
    qed
  qed
qed

lemma basename_last: "os_path_basename p = last (split_sep p)"
proof (induction p rule: rev_induct)
  case Nil
  show ?case by (simp add: os_path_basename_def)
next
  case (snoc c p)
  show ?case
  proof (cases "c = CHR ''/''")
    case True
    then show ?thesis by (simp add: os_path_basename_def split_sep_snoc)
  next
    case False
    have "os_path_basename (p @ [c]) = os_path_basename p @ [c]"
      using False by (simp add: os_path_basename_def)
    with snoc False show ?thesis by (simp add: split_sep_snoc)
  qed
qed

lemma basename_senza_sep: "CHR ''/'' \<notin> set (os_path_basename p)"
proof -
  have "set (takeWhile (\<lambda>c. c \<noteq> CHR ''/'') (rev p)) \<subseteq> {c. c \<noteq> CHR ''/''}"
    by (auto dest: set_takeWhileD)
  then show ?thesis by (auto simp: os_path_basename_def)
qed

lemma cammina_append:
  "cammina fs cur (xs @ ys) =
     (case cammina fs cur xs of Inl e \<Rightarrow> Inl e | Inr q \<Rightarrow> cammina fs q ys)"
  by (induction xs arbitrary: cur) (auto split: option.splits node.splits)

lemma cammina_nome:
  "nome_semplice n \<Longrightarrow> nodo fs q = Some Dir \<Longrightarrow> cammina fs q [n] = Inr (q @ [n])"
  by (auto simp: nome_semplice_def)

lemma stat_Dir:
  "stat fs a = Inr (q, Dir) \<longleftrightarrow> risolvi fs a = Inr q \<and> nodo fs q = Some Dir"
  by (auto simp: stat_def split: sum.splits option.splits)

lemma stat_File:
  "stat fs a = Inr (q, File c) \<longleftrightarrow> risolvi fs a = Inr q \<and> nodo fs q = Some (File c)"
  by (auto simp: stat_def split: sum.splits option.splits)

lemma risolvi_join:
  assumes a: "risolvi fs a = Inr q" and d: "nodo fs q = Some Dir" and n: "nome_semplice n"
  shows "risolvi fs (os_path_join a n) = Inr (q @ [n])"
proof -
  from a have a0: "a \<noteq> []" and c: "cammina fs [] (split_sep a) = Inr q"
    by (auto simp: risolvi_def split: if_splits)
  from n have n0: "\<not> startswith n ''/''" and ns: "split_sep n = [n]"
    by (auto simp: nome_semplice_def startswith_iff split_sep_semplice)
  show ?thesis
  proof (cases "last a = CHR ''/''")
    case True
    with a0 obtain a' where a': "a = a' @ [CHR ''/'']"
      by (metis append_butlast_last_id)
    from c a' have "cammina fs [] (split_sep a' @ [[]]) = Inr q"
      by (simp add: split_sep_snoc)
    then have c': "cammina fs [] (split_sep a') = Inr q"
      by (auto simp: cammina_append split: sum.splits option.splits node.splits)
    have "os_path_join a n = a' @ CHR ''/'' # n"
      using True a0 n0 a' by (simp add: os_path_join_def)
    then have "split_sep (os_path_join a n) = split_sep a' @ [n]"
      by (simp add: split_sep_append ns)
    then have "cammina fs [] (split_sep (os_path_join a n)) = Inr (q @ [n])"
      using c' cammina_nome [OF n d] by (simp add: cammina_append)
    moreover have "os_path_join a n \<noteq> []"
      using a0 n0 by (auto simp: os_path_join_def)
    ultimately show ?thesis by (simp add: risolvi_def)
  next
    case False
    have "os_path_join a n = a @ CHR ''/'' # n"
      using False a0 n0 by (simp add: os_path_join_def)
    then have "split_sep (os_path_join a n) = split_sep a @ [n]"
      by (simp add: split_sep_append ns)
    then have "cammina fs [] (split_sep (os_path_join a n)) = Inr (q @ [n])"
      using c cammina_nome [OF n d] by (simp add: cammina_append)
    moreover have "os_path_join a n \<noteq> []"
      using a0 n0 by (auto simp: os_path_join_def)
    ultimately show ?thesis by (simp add: risolvi_def)
  qed
qed

lemma antenati_dir_Nil: "antenati_dir fs []"
  by (simp add: antenati_dir_def)

lemma antenati_dir_snoc:
  "antenati_dir fs cur \<Longrightarrow> nodo fs cur = Some Dir \<Longrightarrow> antenati_dir fs (cur @ [c])"
  unfolding antenati_dir_def by (auto simp: less_Suc_eq)

lemma antenati_dir_butlast: "antenati_dir fs cur \<Longrightarrow> antenati_dir fs (butlast cur)"
  unfolding antenati_dir_def by (auto simp: take_butlast)

lemma antenati_dir_butlast_Dir:
  "antenati_dir fs cur \<Longrightarrow> nodo fs (butlast cur) = Some Dir"
proof (cases "cur = []")
  case True
  then show ?thesis by (simp add: nodo_radice)
next
  case False
  assume "antenati_dir fs cur"
  then have "nodo fs (take (length cur - 1) cur) = Some Dir"
    using False unfolding antenati_dir_def by simp
  then show ?thesis by (simp add: butlast_conv_take)
qed

lemma cammina_antenati:
  "antenati_dir fs cur \<Longrightarrow> cammina fs cur cs = Inr q \<Longrightarrow> antenati_dir fs q"
proof (induction cs arbitrary: cur)
  case Nil
  then show ?case by simp
next
  case (Cons c cs)
  from Cons.prems(2) have d: "nodo fs cur = Some Dir"
    by (auto split: option.splits node.splits)
  show ?case
  proof (cases "c = [] \<or> c = ''.''")
    case True
    with Cons d show ?thesis by auto
  next
    case False
    show ?thesis
    proof (cases "c = ''..''")
      case True
      with Cons.prems d have "cammina fs (butlast cur) cs = Inr q" by simp
      with Cons.IH [OF antenati_dir_butlast [OF Cons.prems(1)]] show ?thesis by simp
    next
      case c: False
      with False Cons.prems d have "cammina fs (cur @ [c]) cs = Inr q" by simp
      with Cons.IH [OF antenati_dir_snoc [OF Cons.prems(1) d]] show ?thesis by simp
    qed
  qed
qed

text \<open>The last component of the path of a regular file is a proper name.\<close>

lemma file_nome_semplice:
  assumes "risolvi fs p = Inr q" and "nodo fs q = Some (File c)"
  shows "nome_semplice (os_path_basename p)"
proof -
  let ?b = "last (split_sep p)"
  have sp: "split_sep p = butlast (split_sep p) @ [?b]"
    using split_sep_not_Nil [of p] by simp
  from assms(1) have "cammina fs [] (butlast (split_sep p) @ [?b]) = Inr q"
    using sp by (auto simp: risolvi_def split: if_splits)
  then obtain q' where q': "cammina fs [] (butlast (split_sep p)) = Inr q'"
    and l: "cammina fs q' [?b] = Inr q"
    by (auto simp: cammina_append split: sum.splits)
  from cammina_antenati [OF antenati_dir_Nil q'] have inv: "antenati_dir fs q'" .
  from l have d: "nodo fs q' = Some Dir" by (auto split: option.splits node.splits)
  have 1: "?b \<noteq> []" using l d assms(2) by auto
  have 2: "?b \<noteq> ''.''" using l d assms(2) by auto
  have 3: "?b \<noteq> ''..''"
  proof
    assume "?b = ''..''"
    with l d have "q = butlast q'" by simp
    with antenati_dir_butlast_Dir [OF inv] assms(2) show False by simp
  qed
  have 4: "CHR ''/'' \<notin> set ?b" using basename_senza_sep [of p] by (simp add: basename_last)
  from 1 2 3 4 show ?thesis by (simp add: nome_semplice_def basename_last)
qed

subsection \<open>Creating directories\<close>

lemma crea_cammino_append:
  "crea_cammino fs cur (xs @ ys) =
     (case crea_cammino fs cur xs of
        (Inl e, f) \<Rightarrow> (Inl (if ys = [] then e else (if e = EEXIST then ENOTDIR else e)), f)
      | (Inr q, f) \<Rightarrow> crea_cammino f q ys)"
  by (induction xs arbitrary: fs cur) (auto split: option.splits node.splits)

lemma crea_cammino_esistente:
  "cammina fs cur xs = Inr q \<Longrightarrow> nodo fs q = Some Dir \<Longrightarrow> crea_cammino fs cur xs = (Inr q, fs)"
proof (induction xs arbitrary: cur)
  case Nil
  then show ?case by simp
next
  case (Cons c cs)
  from Cons.prems(1) have d: "nodo fs cur = Some Dir"
    by (auto split: option.splits node.splits)
  show ?case
  proof (cases "c = [] \<or> c = ''.'' \<or> c = ''..''")
    case True
    with Cons d show ?thesis by auto
  next
    case False
    with Cons.prems d have w: "cammina fs (cur @ [c]) cs = Inr q" by simp
    have "nodo fs (cur @ [c]) = Some Dir"
    proof (cases cs)
      case Nil
      with w Cons.prems(2) show ?thesis by simp
    next
      case (Cons a as)
      with w show ?thesis by (auto split: option.splits node.splits)
    qed
    with Cons.IH [OF w Cons.prems(2)] False show ?thesis by simp
  qed
qed


lemma join_forma:
  assumes "nome_semplice n" and "a \<noteq> []"
  shows "\<exists>a'. os_path_join a n = a' @ CHR ''/'' # n"
proof -
  from assms(1) have n0: "\<not> startswith n ''/''"
    by (auto simp: nome_semplice_def startswith_iff)
  show ?thesis
  proof (cases "last a = CHR ''/''")
    case True
    with assms(2) obtain a' where "a = a' @ [CHR ''/'']" by (metis append_butlast_last_id)
    with True n0 assms(2) have "os_path_join a n = a' @ CHR ''/'' # n"
      by (simp add: os_path_join_def)
    then show ?thesis ..
  next
    case False
    with n0 assms(2) have "os_path_join a n = a @ CHR ''/'' # n" by (simp add: os_path_join_def)
    then show ?thesis ..
  qed
qed

lemma ultimo_componente_join:
  assumes "nome_semplice n" and "a \<noteq> []"
  shows "ultimo_componente (os_path_join a n) = n"
proof -
  from assms(1) have n0: "\<not> startswith n ''/''" and ns: "split_sep n = [n]" and ne: "n \<noteq> []"
    by (auto simp: nome_semplice_def startswith_iff split_sep_semplice)
  have "\<exists>a'. os_path_join a n = a' @ CHR ''/'' # n"
  proof (cases "last a = CHR ''/''")
    case True
    with assms(2) obtain a' where "a = a' @ [CHR ''/'']" by (metis append_butlast_last_id)
    with True n0 assms(2) have "os_path_join a n = a' @ CHR ''/'' # n"
      by (simp add: os_path_join_def)
    then show ?thesis ..
  next
    case False
    with n0 assms(2) have "os_path_join a n = a @ CHR ''/'' # n" by (simp add: os_path_join_def)
    then show ?thesis ..
  qed
  then obtain a' where "os_path_join a n = a' @ CHR ''/'' # n" ..
  then have "split_sep (os_path_join a n) = split_sep a' @ [n]"
    by (simp add: split_sep_append ns)
  then show ?thesis using ne by (simp add: ultimo_componente_def)
qed

lemma os_makedirs_join:
  assumes a: "risolvi fs a = Inr q" and d: "nodo fs q = Some Dir" and n: "nome_semplice n"
    and v: "nodo fs (q @ [n]) = None"
  shows "os_makedirs fs (os_path_join a n) = (Inr (), metti (q @ [n]) Dir fs)"
proof -
  from a have a0: "a \<noteq> []" by (auto simp: risolvi_def split: if_splits)
  have r: "risolvi fs (os_path_join a n) = Inr (q @ [n])" by (rule risolvi_join [OF a d n])
  then have j0: "os_path_join a n \<noteq> []"
    and w: "cammina fs [] (split_sep (os_path_join a n)) = Inr (q @ [n])"
    by (auto simp: risolvi_def split: if_splits)
  from r v have ne: "\<not> os_path_exists fs (os_path_join a n)"
    by (simp add: os_path_exists_def stat_def)
  let ?xs = "butlast (split_sep (os_path_join a n))"
  let ?b = "last (split_sep (os_path_join a n))"
  have sp: "split_sep (os_path_join a n) = ?xs @ [?b]"
    using split_sep_not_Nil [of "os_path_join a n"] by simp
  from w sp have "cammina fs [] (?xs @ [?b]) = Inr (q @ [n])" by simp
  then obtain q' where q': "cammina fs [] ?xs = Inr q'" and l: "cammina fs q' [?b] = Inr (q @ [n])"
    by (auto simp: cammina_append split: sum.splits)
  from l have d': "nodo fs q' = Some Dir" by (auto split: option.splits node.splits)
  have b: "?b = n \<and> q' = q"
  proof -
    from join_forma [OF n a0] obtain a' where "os_path_join a n = a' @ CHR ''/'' # n" ..
    then have fo: "split_sep (os_path_join a n) = split_sep a' @ [n]"
      using n by (simp add: split_sep_append split_sep_semplice nome_semplice_def)
    have "?b = n" using fo by simp
    moreover from this l d' n have "q' = q" by (auto simp: nome_semplice_def)
    ultimately show ?thesis by simp
  qed
  have "crea_cammino fs [] ?xs = (Inr q, fs)"
    using crea_cammino_esistente [OF q' d'] b by simp
  then have "crea_cammino fs [] (?xs @ [?b]) = (Inr (q @ [n]), metti (q @ [n]) Dir fs)"
    using b n v by (simp add: crea_cammino_append nome_semplice_def)
  with sp have "crea_cammino fs [] (split_sep (os_path_join a n)) = (Inr (q @ [n]), metti (q @ [n]) Dir fs)"
    by simp
  moreover have "ultimo_componente (os_path_join a n) \<noteq> ''..''"
    using ultimo_componente_join [OF n a0] n by (simp add: nome_semplice_def)
  ultimately show ?thesis using j0 ne by (simp add: os_makedirs_def)
qed

subsection \<open>Relocation\<close>

lemma ben_formato_genitore:
  assumes "ben_formato fs" and "nodo fs k = Some n"
  shows "nodo fs (butlast k) = Some Dir"
proof (cases "k = []")
  case True
  then show ?thesis by (simp add: nodo_radice)
next
  case False
  with assms(2) have "(k, n) \<in> set fs" by (auto simp: nodo_def dest: map_of_SomeD)
  with assms(1) False show ?thesis by (auto simp: ben_formato_def list_all_iff)
qed


lemma os_rename_file:
  assumes s: "risolvi fs src = Inr qs" "nodo fs qs = Some (File c)"
    and d: "risolvi fs dst = Inr qd" "nodo fs qd \<noteq> Some Dir" "nodo fs (butlast qd) = Some Dir"
  shows "os_rename fs src dst = Inr (if qd = qs then fs else metti qd (File c) (togli qs fs))"
proof -
  from s have st: "stat fs src = Inr (qs, File c)" by (simp add: stat_File)
  from s(2) have qs: "qs \<noteq> []" by (auto simp: nodo_def)
  from d(2) have qd: "qd \<noteq> []" by (auto simp: nodo_def)
  show ?thesis
    using st d qs qd
    by (cases "nodo fs qd") (auto simp: os_rename_def split: node.splits)
qed

lemma isdir_iff:
  "os_path_isdir fs p \<longleftrightarrow> (\<exists>q. risolvi fs p = Inr q \<and> nodo fs q = Some Dir)"
  by (auto simp: os_path_isdir_def stat_def split: sum.splits option.splits node.splits)

lemma isfile_iff:
  "os_path_isfile fs p \<longleftrightarrow> (\<exists>q c. risolvi fs p = Inr q \<and> nodo fs q = Some (File c))"
  by (auto simp: os_path_isfile_def stat_def split: sum.splits option.splits node.splits)

lemma exists_iff:
  "os_path_exists fs p \<longleftrightarrow> (\<exists>q n. risolvi fs p = Inr q \<and> nodo fs q = Some n)"
  by (auto simp: os_path_exists_def stat_def split: sum.splits option.splits)

lemma samefile_iff:
  "samefile fs a b \<longleftrightarrow>
     (\<exists>q n m. risolvi fs a = Inr q \<and> nodo fs q = Some n \<and> risolvi fs b = Inr q \<and> nodo fs q = Some m)"
  by (auto simp: samefile_def stat_def split: sum.splits option.splits)














lemma sposta_file_riuscito:
  assumes src: "risolvi fs fp = Inr qs" "nodo fs qs = Some (File c)"
    and root: "risolvi fs folder = Inr qr" "nodo fs qr = Some Dir"
    and cat: "nome_semplice cat"
    and dest: "nodo fs (qr @ [cat]) = None \<or> nodo fs (qr @ [cat]) = Some Dir"
    and tgt: "nodo fs (qr @ [cat, os_path_basename fp]) \<noteq> Some Dir"
  shows "\<exists>fs'.
     sposta_file fs fp folder cat
       = (Inr (os_path_join (os_path_join folder cat) (os_path_basename fp)), fs') \<and>
     risolvi fs' (os_path_join folder cat) = Inr (qr @ [cat]) \<and>
     nodo fs' (qr @ [cat]) = Some Dir \<and>
     risolvi fs' (os_path_join (os_path_join folder cat) (os_path_basename fp))
       = Inr (qr @ [cat, os_path_basename fp]) \<and>
     nodo fs' (qr @ [cat, os_path_basename fp]) = Some (File c) \<and>
     risolvi fs' fp = Inr qs \<and>
     (qs \<noteq> qr @ [cat, os_path_basename fp] \<longrightarrow> nodo fs' qs = None) \<and>
     (\<forall>k. k \<noteq> qs \<longrightarrow> k \<noteq> qr @ [cat] \<longrightarrow> k \<noteq> qr @ [cat, os_path_basename fp]
          \<longrightarrow> nodo fs' k = nodo fs k) \<and>
     (\<forall>p. nodo fs p = Some Dir \<longrightarrow> nodo fs' p = Some Dir)"
proof -
  let ?b = "os_path_basename fp"
  let ?dest = "os_path_join folder cat"
  let ?nuovo = "os_path_join ?dest ?b"
  let ?qc = "qr @ [cat]"
  let ?qd = "qr @ [cat, ?b]"
  have nb: "nome_semplice ?b" by (rule file_nome_semplice [OF src])
  have rd: "risolvi fs ?dest = Inr ?qc" by (rule risolvi_join [OF root cat])
  define fs1 where "fs1 = (if nodo fs ?qc = None then metti ?qc Dir fs else fs)"
  have primo: "(if \<not> os_path_exists fs ?dest then os_makedirs fs ?dest else (Inr (), fs))
      = (Inr (), fs1)"
  proof (cases "nodo fs ?qc = None")
    case True
    with rd have "\<not> os_path_exists fs ?dest" by (simp add: os_path_exists_def stat_def)
    with os_makedirs_join [OF root cat True] True show ?thesis by (simp add: fs1_def)
  next
    case False
    with dest have "nodo fs ?qc = Some Dir" by simp
    with rd have "os_path_exists fs ?dest" by (simp add: os_path_exists_def stat_def)
    with False show ?thesis by (auto simp: fs1_def)
  qed
  have F2: "nodo fs1 ?qc = Some Dir"
    using dest by (auto simp: fs1_def nodo_metti)
  have F3: "\<And>k. k \<noteq> ?qc \<Longrightarrow> nodo fs1 k = nodo fs k"
    by (simp add: fs1_def nodo_metti)
  have F1: "\<And>p. nodo fs p = Some Dir \<Longrightarrow> nodo fs1 p = Some Dir"
    using dest by (auto simp: fs1_def nodo_metti)
  have qsc: "qs \<noteq> ?qc" using src(2) dest by auto
  have qdc: "?qd \<noteq> ?qc" by simp
  have rs1: "risolvi fs1 fp = Inr qs" by (rule risolvi_mono [OF F1 src(1)])
  have ns1: "nodo fs1 qs = Some (File c)" using F3 [OF qsc] src(2) by simp
  have rd1: "risolvi fs1 ?dest = Inr ?qc" by (rule risolvi_mono [OF F1 rd])
  have rn1: "risolvi fs1 ?nuovo = Inr ?qd"
    using risolvi_join [OF rd1 F2 nb] by simp
  have nd1: "nodo fs1 ?qd \<noteq> Some Dir" using F3 [OF qdc] tgt by simp
  have bl: "butlast ?qd = ?qc" by (simp add: butlast_append)
  have nodir: "\<not> os_path_isdir fs1 ?nuovo"
    using rn1 nd1 by (auto simp: os_path_isdir_def stat_def split: option.splits node.splits)
  define fs2 where "fs2 = (if ?qd = qs then fs1 else metti ?qd (File c) (togli qs fs1))"
  have "os_rename fs1 fp ?nuovo = Inr fs2"
    unfolding fs2_def using os_rename_file [OF rs1 ns1 rn1 nd1] F2 bl by simp
  with nodir have mv: "shutil_move fs1 fp ?nuovo = (Inr (), fs2)"
    by (simp add: shutil_move_def)
  have res: "sposta_file fs fp folder cat = (Inr ?nuovo, fs2)"
    using primo mv by (simp add: sposta_file_def Let_def)
  have qs0: "qs \<noteq> []" using src(2) by (auto simp: nodo_def)
  have G: "\<And>k. nodo fs2 k = (if k = ?qd then Some (File c) else if k = qs then None else nodo fs1 k)"
    using ns1 qs0 by (auto simp: fs2_def nodo_metti nodo_togli)
  have M: "\<And>p. nodo fs1 p = Some Dir \<Longrightarrow> nodo fs2 p = Some Dir"
    using nd1 ns1 by (auto simp: G)
  have c2: "risolvi fs2 ?dest = Inr ?qc" by (rule risolvi_mono [OF M rd1])
  have c3: "nodo fs2 ?qc = Some Dir" by (rule M [OF F2])
  have c4: "risolvi fs2 ?nuovo = Inr ?qd" by (rule risolvi_mono [OF M rn1])
  have c5: "nodo fs2 ?qd = Some (File c)" by (simp add: G)
  have c6: "risolvi fs2 fp = Inr qs" by (rule risolvi_mono [OF M rs1])
  have c7: "qs \<noteq> ?qd \<longrightarrow> nodo fs2 qs = None" by (simp add: G)
  have c8: "\<forall>k. k \<noteq> qs \<longrightarrow> k \<noteq> ?qc \<longrightarrow> k \<noteq> ?qd \<longrightarrow> nodo fs2 k = nodo fs k"
    using F3 by (simp add: G)
  have c9: "\<forall>p. nodo fs p = Some Dir \<longrightarrow> nodo fs2 p = Some Dir"
    using F1 M by blast
  from res c2 c3 c4 c5 c6 c7 c8 c9 show ?thesis by blast
qed


lemma categoria_semplice:
  assumes "classifica_file m = Some cat"
  shows "nome_semplice cat"
proof -
  from assms have "cat = ''audio'' \<or> cat = ''immagini'' \<or> cat = ''documenti''"
    by (auto simp: classifica_file_def split: option.splits if_splits)
  then show ?thesis by (auto simp: nome_semplice_def)
qed


text \<open>The success of a relocation, stated on paths.\<close>

lemma sposta_file_percorsi:
  assumes wf: "ben_formato fs \<or> os_path_isdir fs (os_path_join folder_path categoria)"
    and src: "leggi_file fs file_path = Some c"
    and root: "os_path_isdir fs folder_path"
    and cat: "nome_semplice categoria"
    and dest: "\<not> os_path_isfile fs (os_path_join folder_path categoria)"
    and tgt: "\<not> os_path_isdir fs (os_path_join (os_path_join folder_path categoria)
                                   (os_path_basename file_path))"
  shows "\<exists>fs'.
     sposta_file fs file_path folder_path categoria
       = (Inr (os_path_join (os_path_join folder_path categoria) (os_path_basename file_path)), fs') \<and>
     leggi_file fs' (os_path_join (os_path_join folder_path categoria) (os_path_basename file_path))
       = Some c \<and>
     os_path_isdir fs' (os_path_join folder_path categoria) \<and>
     os_path_isdir fs' folder_path \<and>
     (os_path_exists fs' file_path \<longrightarrow>
        samefile fs' file_path
          (os_path_join (os_path_join folder_path categoria) (os_path_basename file_path)))"
proof -
  let ?b = "os_path_basename file_path"
  let ?dest = "os_path_join folder_path categoria"
  let ?nuovo = "os_path_join ?dest ?b"
  from src obtain qs where s: "risolvi fs file_path = Inr qs" "nodo fs qs = Some (File c)"
    unfolding leggi_file_iff by blast
  from root obtain qr where r: "risolvi fs folder_path = Inr qr" "nodo fs qr = Some Dir"
    unfolding isdir_iff by blast
  have nb: "nome_semplice ?b" by (rule file_nome_semplice [OF s])
  have rd: "risolvi fs ?dest = Inr (qr @ [categoria])" by (rule risolvi_join [OF r cat])
  have d: "nodo fs (qr @ [categoria]) = None \<or> nodo fs (qr @ [categoria]) = Some Dir"
  proof (cases "nodo fs (qr @ [categoria])")
    case None
    then show ?thesis by simp
  next
    case (Some n)
    with dest rd show ?thesis unfolding isfile_iff by (cases n) auto
  qed
  have t: "nodo fs (qr @ [categoria, ?b]) \<noteq> Some Dir"
  proof
    assume a: "nodo fs (qr @ [categoria, ?b]) = Some Dir"
    have p: "nodo fs (qr @ [categoria]) = Some Dir"
    proof (cases "ben_formato fs")
      case True
      from ben_formato_genitore [OF True a] show ?thesis by (simp add: butlast_append)
    next
      case False
      with wf rd show ?thesis unfolding isdir_iff by auto
    qed
    from risolvi_join [OF rd p nb] a have "os_path_isdir fs ?nuovo"
      unfolding isdir_iff by auto
    with tgt show False by simp
  qed
  from sposta_file_riuscito [OF s r cat d t] obtain fs' where
    res: "sposta_file fs file_path folder_path categoria = (Inr ?nuovo, fs')"
    and c2: "risolvi fs' ?dest = Inr (qr @ [categoria])"
    and c3: "nodo fs' (qr @ [categoria]) = Some Dir"
    and c4: "risolvi fs' ?nuovo = Inr (qr @ [categoria, ?b])"
    and c5: "nodo fs' (qr @ [categoria, ?b]) = Some (File c)"
    and c6: "risolvi fs' file_path = Inr qs"
    and c7: "qs \<noteq> qr @ [categoria, ?b] \<longrightarrow> nodo fs' qs = None"
    and c9: "\<forall>p. nodo fs p = Some Dir \<longrightarrow> nodo fs' p = Some Dir"
    by blast
  have l: "leggi_file fs' ?nuovo = Some c" using c4 c5 unfolding leggi_file_iff by blast
  have i: "os_path_isdir fs' ?dest" using c2 c3 unfolding isdir_iff by blast
  have j: "os_path_isdir fs' folder_path"
    using risolvi_mono [of fs fs', OF _ r(1)] c9 r(2) unfolding isdir_iff by blast
  have e: "os_path_exists fs' file_path \<longrightarrow> samefile fs' file_path ?nuovo"
  proof
    assume "os_path_exists fs' file_path"
    with c6 have "nodo fs' qs \<noteq> None" unfolding exists_iff by auto
    with c7 have "qs = qr @ [categoria, ?b]" by blast
    with c4 c5 c6 show "samefile fs' file_path ?nuovo" unfolding samefile_iff by auto
  qed
  from res l i j e show ?thesis by blast
qed


text \<open>
  C6 (as amended). In a well-formed tree, for a source path that names a regular file, a
  root that is a directory, a category of the classifier, a category path that is not a
  regular file and a target \<^verbatim>\<open>root/category/basename\<close> that is not an existing
  directory, \<^const>\<open>sposta_file\<close> succeeds; afterwards the content of the file is at
  \<^verbatim>\<open>root/category/basename\<close>, the category directory exists (made when it was
  missing), the source path no longer exists unless it names the target itself, and the
  value returned is the string \<^verbatim>\<open>join(join(root, category), basename)\<close> as joined:
  relative when the root is relative, and not normalized.
\<close>

theorem sposta_file_destinazione:
  assumes "ben_formato fs"
    and "leggi_file fs file_path = Some c"
    and "os_path_isdir fs folder_path"
    and "classifica_file mime_type = Some categoria"
    and "\<not> os_path_isfile fs (os_path_join folder_path categoria)"
    and "\<not> os_path_isdir fs (os_path_join (os_path_join folder_path categoria)
                                (os_path_basename file_path))"
  shows "\<exists>fs'.
     sposta_file fs file_path folder_path categoria
       = (Inr (os_path_join (os_path_join folder_path categoria) (os_path_basename file_path)), fs') \<and>
     leggi_file fs' (os_path_join (os_path_join folder_path categoria) (os_path_basename file_path))
       = Some c \<and>
     os_path_isdir fs' (os_path_join folder_path categoria) \<and>
     os_path_isdir fs' folder_path \<and>
     (os_path_exists fs' file_path \<longrightarrow>
        samefile fs' file_path
          (os_path_join (os_path_join folder_path categoria) (os_path_basename file_path)))"
  using sposta_file_percorsi [OF disjI1 [OF assms(1)] assms(2) assms(3)
      categoria_semplice [OF assms(4)] assms(5) assms(6)] .

theorem sposta_file_destinazione_witness:
  "ben_formato albero \<and>
   leggi_file albero ''./files/song.mp3'' = Some ''abc'' \<and>
   os_path_isdir albero ''./files'' \<and>
   classifica_file (Some ''audio/mpeg'') = Some ''audio'' \<and>
   \<not> os_path_isfile albero (os_path_join ''./files'' ''audio'') \<and>
   \<not> os_path_isdir albero (os_path_join (os_path_join ''./files'' ''audio'')
                             (os_path_basename ''./files/song.mp3'')) \<and>
   (\<exists>fs'.
     sposta_file albero ''./files/song.mp3'' ''./files'' ''audio''
       = (Inr (os_path_join (os_path_join ''./files'' ''audio'')
                 (os_path_basename ''./files/song.mp3'')), fs') \<and>
     leggi_file fs' (os_path_join (os_path_join ''./files'' ''audio'')
                       (os_path_basename ''./files/song.mp3'')) = Some ''abc'' \<and>
     os_path_isdir fs' (os_path_join ''./files'' ''audio'') \<and>
     os_path_isdir fs' ''./files'' \<and>
     (os_path_exists fs' ''./files/song.mp3'' \<longrightarrow>
        samefile fs' ''./files/song.mp3''
          (os_path_join (os_path_join ''./files'' ''audio'')
             (os_path_basename ''./files/song.mp3'')))) \<and>
   sposta_file albero ''./files/song.mp3'' ''./files'' ''audio''
     = (Inr ''./files/audio/song.mp3'', albero_1)"
proof -
  have h1: "ben_formato albero" by code_simp
  have h2: "leggi_file albero ''./files/song.mp3'' = Some ''abc''" by code_simp
  have h3: "os_path_isdir albero ''./files''" by code_simp
  have h4: "classifica_file (Some ''audio/mpeg'') = Some ''audio''" by code_simp
  have h5: "\<not> os_path_isfile albero (os_path_join ''./files'' ''audio'')" by code_simp
  have h6: "\<not> os_path_isdir albero (os_path_join (os_path_join ''./files'' ''audio'')
                             (os_path_basename ''./files/song.mp3''))" by code_simp
  have h7: "sposta_file albero ''./files/song.mp3'' ''./files'' ''audio''
     = (Inr ''./files/audio/song.mp3'', albero_1)" by code_simp
  note t = sposta_file_destinazione [OF h1 h2 h3 h4 h5 h6]
  show ?thesis by (intro conjI) (fact h1 h2 h3 h4 h5 h6 h7 t)+
qed

text \<open>
  The path returned is not made absolute or normal: for the root \<^verbatim>\<open>./files\<close> it is
  \<^verbatim>\<open>./files/audio/song.mp3\<close>, which is relative and whose normal form is
  \<^verbatim>\<open>files/audio/song.mp3\<close>.
\<close>

theorem sposta_file_percorso_relativo_counterexample:
  "sposta_file albero ''./files/song.mp3'' ''./files'' ''audio''
     = (Inr ''./files/audio/song.mp3'', albero_1) \<and>
   \<not> os_path_isabs ''./files/audio/song.mp3'' \<and>
   os_path_normpath ''./files/audio/song.mp3'' = ''files/audio/song.mp3'' \<and>
   os_path_normpath ''./files/audio/song.mp3'' \<noteq> ''./files/audio/song.mp3''"
  by code_simp

text \<open>
  C8. Under the conditions of a relocation (a regular source file, a root directory, a
  category of the classifier, the target not a directory), \<^const>\<open>sposta_file\<close>
  succeeds whether the category directory is missing or exists; afterwards the directory
  exists, and a second relocation into the same category, of any file of the resulting tree,
  succeeds as well: the existing directory makes nothing fail.
\<close>

theorem sposta_file_cartella_esistente:
  assumes "ben_formato fs"
    and "os_path_isdir fs folder_path"
    and "classifica_file mime_type = Some categoria"
    and "leggi_file fs file_a = Some ca"
    and "\<not> os_path_isfile fs (os_path_join folder_path categoria)"
    and "\<not> os_path_isdir fs (os_path_join (os_path_join folder_path categoria)
                                (os_path_basename file_a))"
  shows "\<exists>pa fs1.
     sposta_file fs file_a folder_path categoria = (Inr pa, fs1) \<and>
     os_path_isdir fs1 (os_path_join folder_path categoria) \<and>
     (\<forall>file_b cb.
        leggi_file fs1 file_b = Some cb \<and>
        \<not> os_path_isdir fs1 (os_path_join (os_path_join folder_path categoria)
                                (os_path_basename file_b)) \<longrightarrow>
        (\<exists>pb fs2. sposta_file fs1 file_b folder_path categoria = (Inr pb, fs2) \<and>
                  leggi_file fs2 pb = Some cb \<and>
                  os_path_isdir fs2 (os_path_join folder_path categoria)))"
proof -
  let ?dest = "os_path_join folder_path categoria"
  have cat: "nome_semplice categoria" by (rule categoria_semplice [OF assms(3)])
  from sposta_file_percorsi [OF disjI1 [OF assms(1)] assms(4) assms(2) cat assms(5) assms(6)]
  obtain fs1 where
    r1: "sposta_file fs file_a folder_path categoria
          = (Inr (os_path_join ?dest (os_path_basename file_a)), fs1)"
    and d1: "os_path_isdir fs1 ?dest" and f1: "os_path_isdir fs1 folder_path"
    by blast
  from d1 have nf1: "\<not> os_path_isfile fs1 ?dest"
    unfolding isdir_iff isfile_iff by auto
  have "\<forall>file_b cb.
        leggi_file fs1 file_b = Some cb \<and>
        \<not> os_path_isdir fs1 (os_path_join ?dest (os_path_basename file_b)) \<longrightarrow>
        (\<exists>pb fs2. sposta_file fs1 file_b folder_path categoria = (Inr pb, fs2) \<and>
                  leggi_file fs2 pb = Some cb \<and> os_path_isdir fs2 ?dest)"
  proof (intro allI impI)
    fix file_b cb
    assume h: "leggi_file fs1 file_b = Some cb \<and>
        \<not> os_path_isdir fs1 (os_path_join ?dest (os_path_basename file_b))"
    from sposta_file_percorsi [OF disjI2 [OF d1] conjunct1 [OF h] f1 cat nf1 conjunct2 [OF h]]
    show "\<exists>pb fs2. sposta_file fs1 file_b folder_path categoria = (Inr pb, fs2) \<and>
                  leggi_file fs2 pb = Some cb \<and> os_path_isdir fs2 ?dest"
      by blast
  qed
  with r1 d1 show ?thesis by blast
qed

theorem sposta_file_cartella_esistente_witness:
  "ben_formato albero \<and>
   os_path_isdir albero ''./files'' \<and>
   classifica_file (Some ''audio/mpeg'') = Some ''audio'' \<and>
   leggi_file albero ''./files/song.mp3'' = Some ''abc'' \<and>
   \<not> os_path_isfile albero (os_path_join ''./files'' ''audio'') \<and>
   \<not> os_path_isdir albero (os_path_join (os_path_join ''./files'' ''audio'')
                             (os_path_basename ''./files/song.mp3'')) \<and>
   (\<exists>pa fs1.
     sposta_file albero ''./files/song.mp3'' ''./files'' ''audio'' = (Inr pa, fs1) \<and>
     os_path_isdir fs1 (os_path_join ''./files'' ''audio'') \<and>
     (\<forall>file_b cb.
        leggi_file fs1 file_b = Some cb \<and>
        \<not> os_path_isdir fs1 (os_path_join (os_path_join ''./files'' ''audio'')
                                (os_path_basename file_b)) \<longrightarrow>
        (\<exists>pb fs2. sposta_file fs1 file_b ''./files'' ''audio'' = (Inr pb, fs2) \<and>
                  leggi_file fs2 pb = Some cb \<and>
                  os_path_isdir fs2 (os_path_join ''./files'' ''audio'')))) \<and>
   sposta_file albero ''./files/song.mp3'' ''./files'' ''audio''
     = (Inr ''./files/audio/song.mp3'', albero_1) \<and>
   os_path_isdir albero_1 ''./files/audio'' \<and>
   sposta_file albero_1 ''./files/tune.mp3'' ''./files'' ''audio''
     = (Inr ''./files/audio/tune.mp3'', albero_2)"
proof -
  have h1: "ben_formato albero" by code_simp
  have h2: "os_path_isdir albero ''./files''" by code_simp
  have h3: "classifica_file (Some ''audio/mpeg'') = Some ''audio''" by code_simp
  have h4: "leggi_file albero ''./files/song.mp3'' = Some ''abc''" by code_simp
  have h5: "\<not> os_path_isfile albero (os_path_join ''./files'' ''audio'')" by code_simp
  have h6: "\<not> os_path_isdir albero (os_path_join (os_path_join ''./files'' ''audio'')
                             (os_path_basename ''./files/song.mp3''))" by code_simp
  have h7: "sposta_file albero ''./files/song.mp3'' ''./files'' ''audio''
     = (Inr ''./files/audio/song.mp3'', albero_1)" by code_simp
  have h8: "os_path_isdir albero_1 ''./files/audio''" by code_simp
  have h9: "sposta_file albero_1 ''./files/tune.mp3'' ''./files'' ''audio''
     = (Inr ''./files/audio/tune.mp3'', albero_2)" by code_simp
  note t = sposta_file_cartella_esistente [OF h1 h2 h3 h4 h5 h6]
  show ?thesis by (intro conjI) (fact h1 h2 h3 h4 h5 h6 h7 h8 h9 t)+
qed

subsection \<open>The pipeline\<close>




text \<open>
  The validation of the file name in \<^const>\<open>main\<close> admits only files whose media type
  has one of the four top-level tokens, and these the classifier recognises.
\<close>

lemma isdir_listdir:
  "os_path_isdir fs d \<Longrightarrow> \<exists>nomi. os_listdir fs d = Inr nomi"
  by (auto simp: os_path_isdir_def os_listdir_def split: sum.splits prod.splits node.splits)

lemma spostabile_riconosciuto:
  assumes "spostabile guess fs folder_path f"
  shows "\<exists>m. guess (os_path_join folder_path f) = Some m \<and> classifica_file (Some m) \<noteq> None"
proof -
  from assms obtain m where g: "guess (os_path_join folder_path f) = Some m"
    and t: "tipo_principale m \<in> set tipi_validi"
    by (auto simp: spostabile_def Let_def split: option.splits)
  from t have "startswith m ''audio'' \<or> startswith m ''image'' \<or> startswith m ''application''
      \<or> startswith m ''text''"
    using tipo_principale_startswith [of m] by (auto simp: tipi_validi_def)
  then have "classifica_file (Some m) \<noteq> None"
    using classifica_audio [of m] classifica_image [of m] classifica_documenti [of m] by auto
  with g show ?thesis by blast
qed

lemma main_non_valido:
  assumes "os_path_isdir fs d" and "d \<noteq> []" and "os_listdir fs d = Inr nomi" and "f \<noteq> []"
    and "\<not> spostabile guess fs d f"
  shows "main guess fs (Some f) (Some d) risposta
           = (1, [ErroreNonValido f d (sort (filter (spostabile guess fs d) nomi))], fs)"
  using assms by (simp add: main_def Let_def)



lemma main_mai_non_riconosciuto:
  assumes "main guess fs filename directory risposta = (codice, stampe, fs')"
  shows "NonRiconosciuto f m \<notin> set stampe"
proof -
  let ?d = "case directory of None \<Rightarrow> risposta | Some d \<Rightarrow> if d = [] then risposta else d"
  show ?thesis
  proof (cases "os_path_isdir fs ?d")
    case False
    with assms show ?thesis by (auto simp: main_def Let_def)
  next
    case True
    show ?thesis
    proof (cases "os_listdir fs ?d")
      case (Inl x)
      with True assms show ?thesis by (auto simp: main_def Let_def)
    next
      case (Inr nomi)
      show ?thesis
      proof (cases "\<exists>g. filename = Some g \<and> g \<noteq> [] \<and> g \<in> set (sort (filter (spostabile guess fs ?d) nomi))")
        case False
        with True Inr assms show ?thesis
          by (cases filename) (auto simp: main_def Let_def split: if_splits)
      next
        case t: True
        then obtain g where g: "filename = Some g" "g \<noteq> []" "spostabile guess fs ?d g" by auto
        from spostabile_riconosciuto [OF g(3)] obtain mm where
          "guess (os_path_join ?d g) = Some mm" "classifica_file (Some mm) \<noteq> None" by blast
        with t g True Inr assms show ?thesis
          by (auto simp: main_def get_mime_type_def Let_def
              split: sum.splits option.splits prod.splits)
      qed
    qed
  qed
qed







text \<open>
  C4 (as amended). A file whose media type the classifier does not recognise never reaches
  the classifier in \<^const>\<open>main\<close>: the validation of the file name rejects it, the run
  ends with status 1 after the message that the file is not valid, with the list of the
  files that can be moved, and the tree is the one it started from: no directory is made,
  the file is not moved, no ledger row is written.
\<close>

theorem main_non_riconosciuto:
  assumes "os_path_isdir fs folder_path" and "folder_path \<noteq> []" and "filename \<noteq> []"
    and "get_mime_type guess fs (os_path_join folder_path filename) = Inr (mime_type, dimensione)"
    and "classifica_file (Some mime_type) = None"
  shows "\<exists>disponibili.
           main guess fs (Some filename) (Some folder_path) risposta
             = (1, [ErroreNonValido filename folder_path disponibili], fs)"
proof -
  from isdir_listdir [OF assms(1)] obtain nomi where l: "os_listdir fs folder_path = Inr nomi" ..
  have "\<not> spostabile guess fs folder_path filename"
  proof
    assume "spostabile guess fs folder_path filename"
    from spostabile_riconosciuto [OF this] obtain m where
      g: "guess (os_path_join folder_path filename) = Some m"
      and c: "classifica_file (Some m) \<noteq> None" by blast
    from assms(4) g have "mime_type = m"
      by (auto simp: get_mime_type_def Let_def split: sum.splits)
    with c assms(5) show False by simp
  qed
  from main_non_valido [OF assms(1) assms(2) l assms(3) this] show ?thesis by blast
qed

theorem main_non_riconosciuto_witness:
  "os_path_isdir albero_video ''./files'' \<and>
   get_mime_type tabella_video albero_video (os_path_join ''./files'' ''clip.mp4'')
     = Inr (''video/mp4'', 4) \<and>
   classifica_file (Some ''video/mp4'') = None \<and>
   (\<exists>disponibili.
      main tabella_video albero_video (Some ''clip.mp4'') (Some ''./files'') []
        = (1, [ErroreNonValido ''clip.mp4'' ''./files'' disponibili], albero_video)) \<and>
   main tabella_video albero_video (Some ''clip.mp4'') (Some ''./files'') []
     = (1, [ErroreNonValido ''clip.mp4'' ''./files'' [''song.mp3'']], albero_video)"
proof -
  have h1: "os_path_isdir albero_video ''./files''" by code_simp
  have h2: "''./files'' \<noteq> []" by simp
  have h3: "''clip.mp4'' \<noteq> []" by simp
  have h4: "get_mime_type tabella_video albero_video (os_path_join ''./files'' ''clip.mp4'')
     = Inr (''video/mp4'', 4)" by code_simp
  have h5: "classifica_file (Some ''video/mp4'') = None" by code_simp
  have h6: "main tabella_video albero_video (Some ''clip.mp4'') (Some ''./files'') []
     = (1, [ErroreNonValido ''clip.mp4'' ''./files'' [''song.mp3'']], albero_video)" by code_simp
  note t = main_non_riconosciuto [OF h1 h2 h3 h4 h5, of "[]"]
  show ?thesis by (intro conjI) (fact h1 h4 h5 h6 t)+
qed

text \<open>
  The file \<^verbatim>\<open>song.xyz\<close> of the scenario: its media type is the sentinel, which the
  classifier does not recognise, and the run ends with status 1 at the validation, not
  with the outcome of a skipped file.
\<close>

theorem main_non_riconosciuto_counterexample:
  "get_mime_type nessun_tipo albero_xyz (os_path_join ''./files'' ''song.xyz'')
     = Inr (''Tipo sconosciuto'', 3) \<and>
   classifica_file (Some ''Tipo sconosciuto'') = None \<and>
   main nessun_tipo albero_xyz (Some ''song.xyz'') (Some ''./files'') []
     = (1, [ErroreNonValido ''song.xyz'' ''./files'' []], albero_xyz)"
  by code_simp

end
